theory Spec2Isabelle
  imports Complex_Main "HOL-Library.Extended_Nat"
begin

section \<open>Strings\<close>

text \<open>
  A JavaScript string is a sequence of UTF-16 code units. The embedding uses \<^typ>\<open>string\<close>:
  every \<^typ>\<open>char\<close> stands for one code unit below 256 (the Latin-1 range), and
  \<^const>\<open>length\<close> is the \<^verbatim>\<open>.length\<close> of the source.
\<close>

definition toLowerChar :: "char \<Rightarrow> char" where
  "toLowerChar c =
     (let n = (of_char c :: nat)
      in if (0x41 \<le> n \<and> n \<le> 0x5A) \<or> (0xC0 \<le> n \<and> n \<le> 0xDE \<and> n \<noteq> 0xD7)
         then char_of (n + 0x20) else c)"

definition toLowerCase :: "string \<Rightarrow> string" where
  "toLowerCase s = map toLowerChar s"

text \<open>
  White space as \<^verbatim>\<open>\s\<close> and \<^verbatim>\<open>trim\<close> see it: tab, line feed, vertical tab, form feed,
  carriage return, space and no-break space (the members below 256).
\<close>

definition is_space :: "char \<Rightarrow> bool" where
  "is_space c \<longleftrightarrow> c \<in> set [CHR 0x09, CHR 0x0A, CHR 0x0B, CHR 0x0C, CHR 0x0D, CHR 0x20, CHR 0xA0]"

definition trim :: "string \<Rightarrow> string" where
  "trim s = rev (dropWhile is_space (rev (dropWhile is_space s)))"

text \<open>\<^verbatim>\<open>s.split(",")\<close>: the pieces between the separators, at least one piece.\<close>

fun split :: "char \<Rightarrow> string \<Rightarrow> string list" where
  "split sep [] = [[]]"
| "split sep (c # cs) =
     (if c = sep then [] # split sep cs
      else (case split sep cs of [] \<Rightarrow> [[c]] | piece # pieces \<Rightarrow> (c # piece) # pieces))"

text \<open>\<^verbatim>\<open>xs.join(sep)\<close> on an array of strings.\<close>

fun join :: "string \<Rightarrow> string list \<Rightarrow> string" where
  "join sep [] = []"
| "join sep [x] = x"
| "join sep (x # y # ys) = x @ sep @ join sep (y # ys)"

text \<open>The decimal digits of a natural number, as a template literal prints it.\<close>

fun show_nat :: "nat \<Rightarrow> string" where
  "show_nat n =
     (if n < 10 then [char_of (48 + n)] else show_nat (n div 10) @ [char_of (48 + n mod 10)])"

section \<open>Levenshtein distance\<close>

text \<open>
  \<^verbatim>\<open>levenshteinDistance(a, b)\<close> fills a matrix of \<^verbatim>\<open>b.length + 1\<close> rows and
  \<^verbatim>\<open>a.length + 1\<close> columns. The matrix is a list of rows. An assignment
  \<^verbatim>\<open>row[j] = v\<close> overwrites an existing cell and appends when \<open>j\<close> is the length of the
  row; the source writes every row from left to right, so it never writes further out.
  A \<^verbatim>\<open>for\<close> loop over a fixed index range is a \<^const>\<open>fold\<close> over that range.
\<close>

type_synonym matrix = "nat list list"

definition assign :: "'a list \<Rightarrow> nat \<Rightarrow> 'a \<Rightarrow> 'a list" where
  "assign xs j v = (if j < length xs then xs[j := v] else xs @ [v])"

definition set_cell :: "matrix \<Rightarrow> nat \<Rightarrow> nat \<Rightarrow> nat \<Rightarrow> matrix" where
  "set_cell M i j v = M[i := assign (M ! i) j v]"

definition init_rows :: "nat \<Rightarrow> matrix" where
  "init_rows m = fold (\<lambda>i M. assign M i [i]) [0..<Suc m] []"

definition init_first_row :: "nat \<Rightarrow> matrix \<Rightarrow> matrix" where
  "init_first_row n M = fold (\<lambda>j M. set_cell M 0 j j) [0..<Suc n] M"

definition cell_value :: "string \<Rightarrow> string \<Rightarrow> matrix \<Rightarrow> nat \<Rightarrow> nat \<Rightarrow> nat" where
  "cell_value a b M i j =
     (if b ! (i - 1) = a ! (j - 1) then M ! (i - 1) ! (j - 1)
      else min (M ! (i - 1) ! (j - 1) + 1) (min (M ! i ! (j - 1) + 1) (M ! (i - 1) ! j + 1)))"

definition fill_row :: "string \<Rightarrow> string \<Rightarrow> nat \<Rightarrow> nat \<Rightarrow> matrix \<Rightarrow> matrix" where
  "fill_row a b n i M = fold (\<lambda>j M. set_cell M i j (cell_value a b M i j)) [1..<Suc n] M"

definition fill_rows :: "string \<Rightarrow> string \<Rightarrow> nat \<Rightarrow> matrix \<Rightarrow> matrix" where
  "fill_rows a b m M = fold (\<lambda>i M. fill_row a b (length a) i M) [1..<Suc m] M"

definition levenshteinDistance :: "string \<Rightarrow> string \<Rightarrow> nat" where
  "levenshteinDistance a b =
     fill_rows a b (length b) (init_first_row (length a) (init_rows (length b)))
       ! length b ! length a"

text \<open>
  The recurrence the matrix tabulates: \<open>lev_cell a b i j\<close> is the cell in row \<open>i\<close>
  (a prefix of \<open>b\<close>) and column \<open>j\<close> (a prefix of \<open>a\<close>).
\<close>

fun lev_cell :: "string \<Rightarrow> string \<Rightarrow> nat \<Rightarrow> nat \<Rightarrow> nat" where
  "lev_cell a b 0 j = j"
| "lev_cell a b (Suc i) 0 = Suc i"
| "lev_cell a b (Suc i) (Suc j) =
     (if b ! i = a ! j then lev_cell a b i j
      else min (lev_cell a b i j + 1) (min (lev_cell a b (Suc i) j + 1) (lev_cell a b i (Suc j) + 1)))"

definition lev_row :: "string \<Rightarrow> string \<Rightarrow> nat \<Rightarrow> nat \<Rightarrow> nat list" where
  "lev_row a b i k = map (lev_cell a b i) [0..<Suc k]"

section \<open>Tool-name fuzzy matcher\<close>

record closest_result =
  match :: "string option"
  distance :: enat

text \<open>
  \<^verbatim>\<open>Math.ceil(closest.length * 0.3)\<close>. The double nearest to 0.3 lies below it by a
  relative error under \<open>2\<^sup>-\<^sup>5\<^sup>4\<close>, so for a length that is a multiple of ten the product
  rounds to the exact integer, and for every other length it stays strictly between two
  integers: the result is the ceiling of three tenths of the length.
\<close>

definition ceil30 :: "nat \<Rightarrow> nat" where
  "ceil30 n = (3 * n + 9) div 10"

text \<open>
  The check after the loop. \<^verbatim>\<open>closest && ...\<close> is false for \<^verbatim>\<open>null\<close> and for the
  empty string.
\<close>

definition suggest :: "string option \<Rightarrow> enat \<Rightarrow> closest_result" where
  "suggest closest minDistance =
     (case closest of
        None \<Rightarrow> \<lparr>match = None, distance = minDistance\<rparr>
      | Some c \<Rightarrow>
          if c \<noteq> [] \<and> minDistance \<le> enat (ceil30 (length c))
          then \<lparr>match = Some c, distance = minDistance\<rparr>
          else \<lparr>match = None, distance = minDistance\<rparr>)"

text \<open>The \<^verbatim>\<open>for (const tool of availableTools)\<close> loop, with its early return.\<close>

fun closest_loop :: "string \<Rightarrow> string list \<Rightarrow> string option \<Rightarrow> enat \<Rightarrow> closest_result" where
  "closest_loop inputLower [] closest minDistance = suggest closest minDistance"
| "closest_loop inputLower (tool # rest) closest minDistance =
     (let toolLower = toLowerCase tool
      in if inputLower = toolLower then \<lparr>match = Some tool, distance = 0\<rparr>
         else let d = levenshteinDistance inputLower toolLower
              in if enat d < minDistance then closest_loop inputLower rest (Some tool) (enat d)
                 else closest_loop inputLower rest closest minDistance)"

definition findClosestToolName :: "string \<Rightarrow> string list \<Rightarrow> closest_result" where
  "findClosestToolName input availableTools =
     (if input \<in> set availableTools then \<lparr>match = Some input, distance = 0\<rparr>
      else closest_loop (toLowerCase input) availableTools None \<infinity>)"

section \<open>Values\<close>

text \<open>
  A JavaScript number is a finite double, \<^verbatim>\<open>NaN\<close> or an infinity. The finite ones are
  embedded by their exact rational value; \<open>-0\<close> is identified with \<open>0\<close>, which the source
  never tells apart.
\<close>

datatype jsnum = Finite rat | NaN | PosInfinity | NegInfinity

definition isNaN :: "jsnum \<Rightarrow> bool" where
  "isNaN x \<longleftrightarrow> x = NaN"

text \<open>
  The values the validator handles (\<^verbatim>\<open>unknown\<close> in the source): JSON values and
  \<^verbatim>\<open>undefined\<close>. An object is the list of its own properties, in order.
\<close>

datatype jsval = JUndefined | JNull | JBool bool | JNum jsnum | JStr string
  | JArr "jsval list" | JObj "(string \<times> jsval) list"

type_synonym obj = "(string \<times> jsval) list"

text \<open>\<^verbatim>\<open>o[key]\<close>: reading a property that is not there gives \<^verbatim>\<open>undefined\<close>.\<close>

definition prop_get :: "obj \<Rightarrow> string \<Rightarrow> jsval" where
  "prop_get ob key = (case map_of ob key of None \<Rightarrow> JUndefined | Some v \<Rightarrow> v)"

text \<open>\<^verbatim>\<open>o[key] = v\<close>: overwrite in place, or add the property at the end.\<close>

fun prop_set :: "obj \<Rightarrow> string \<Rightarrow> jsval \<Rightarrow> obj" where
  "prop_set [] key v = [(key, v)]"
| "prop_set ((k, w) # ob) key v = (if k = key then (k, v) # ob else (k, w) # prop_set ob key v)"

definition is_string :: "jsval \<Rightarrow> bool" where
  "is_string v = (case v of JStr _ \<Rightarrow> True | _ \<Rightarrow> False)"

definition is_array :: "jsval \<Rightarrow> bool" where
  "is_array v = (case v of JArr _ \<Rightarrow> True | _ \<Rightarrow> False)"

text \<open>\<^verbatim>\<open>typeof v === "object" && v !== null\<close>: arrays are objects too.\<close>

definition is_object :: "jsval \<Rightarrow> bool" where
  "is_object v = (case v of JArr _ \<Rightarrow> True | JObj _ \<Rightarrow> True | _ \<Rightarrow> False)"

section \<open>Regular expressions of the danger scanner\<close>

text \<open>
  The regular expression literals of the rule table, as syntax trees. \<open>Dot\<close> is \<^verbatim>\<open>.\<close>
  (any code unit but a line terminator), \<open>Space\<close> is \<^verbatim>\<open>\s\<close>, \<open>Plus r\<close> is \<^verbatim>\<open>r+\<close>.
\<close>

datatype regex = Eps | Fail | Lit char | Dot | Space
  | Seq regex regex | Alt regex regex | Star regex | Plus regex

record js_regex =
  body :: regex
  ignoreCase :: bool

primrec nullable :: "regex \<Rightarrow> bool" where
  "nullable Eps = True"
| "nullable Fail = False"
| "nullable (Lit x) = False"
| "nullable Dot = False"
| "nullable Space = False"
| "nullable (Seq r s) = (nullable r \<and> nullable s)"
| "nullable (Alt r s) = (nullable r \<or> nullable s)"
| "nullable (Star r) = True"
| "nullable (Plus r) = nullable r"

text \<open>
  What is left of an expression once it has read the code unit \<open>c\<close>. With the flag
  \<^verbatim>\<open>i\<close> a literal matches both cases of its letter.
\<close>

primrec deriv :: "bool \<Rightarrow> char \<Rightarrow> regex \<Rightarrow> regex" where
  "deriv ic c Eps = Fail"
| "deriv ic c Fail = Fail"
| "deriv ic c (Lit x) =
     (if (if ic then toLowerChar x = toLowerChar c else x = c) then Eps else Fail)"
| "deriv ic c Dot = (if c = CHR 0x0A \<or> c = CHR 0x0D then Fail else Eps)"
| "deriv ic c Space = (if is_space c then Eps else Fail)"
| "deriv ic c (Seq r s) =
     (if nullable r then Alt (Seq (deriv ic c r) s) (deriv ic c s) else Seq (deriv ic c r) s)"
| "deriv ic c (Alt r s) = Alt (deriv ic c r) (deriv ic c s)"
| "deriv ic c (Star r) = Seq (deriv ic c r) (Star r)"
| "deriv ic c (Plus r) = Seq (deriv ic c r) (Star r)"

text \<open>Does the expression match some prefix of the text?\<close>

fun match_prefix :: "bool \<Rightarrow> regex \<Rightarrow> string \<Rightarrow> bool" where
  "match_prefix ic r [] = nullable r"
| "match_prefix ic r (c # cs) = (nullable r \<or> match_prefix ic (deriv ic c r) cs)"

text \<open>\<^verbatim>\<open>regex.test(text)\<close> without the flag \<^verbatim>\<open>g\<close>: a match starting anywhere.\<close>

fun search :: "bool \<Rightarrow> regex \<Rightarrow> string \<Rightarrow> bool" where
  "search ic r [] = nullable r"
| "search ic r (c # cs) = (match_prefix ic r (c # cs) \<or> search ic r cs)"

definition regex_test :: "js_regex \<Rightarrow> string \<Rightarrow> bool" where
  "regex_test rx text = search (ignoreCase rx) (body rx) text"

text \<open>The source text of an expression, as \<^verbatim>\<open>`${regex}`\<close> prints it.\<close>

definition needs_escape :: "char \<Rightarrow> bool" where
  "needs_escape c \<longleftrightarrow> c \<in> set ''./|*+?()[]{}^$'' \<or> c = CHR 0x5C"

fun regex_source :: "regex \<Rightarrow> string" where
  "regex_source Eps = []"
| "regex_source Fail = ''[]''"
| "regex_source (Lit x) = (if needs_escape x then [CHR 0x5C, x] else [x])"
| "regex_source Dot = ''.''"
| "regex_source Space = [CHR 0x5C, CHR ''s'']"
| "regex_source (Seq r s) = regex_source r @ regex_source s"
| "regex_source (Alt r s) = regex_source r @ ''|'' @ regex_source s"
| "regex_source (Star r) = regex_source r @ ''*''"
| "regex_source (Plus r) = regex_source r @ ''+''"

definition regex_toString :: "js_regex \<Rightarrow> string" where
  "regex_toString rx = ''/'' @ regex_source (body rx) @ ''/'' @ (if ignoreCase rx then ''i'' else [])"

definition lits :: "string \<Rightarrow> regex" where
  "lits s = foldr (\<lambda>c r. Seq (Lit c) r) s Eps"

definition seqs :: "regex list \<Rightarrow> regex" where
  "seqs rs = foldr Seq rs Eps"

section \<open>Danger scanner\<close>

record danger_rule =
  tool :: string
  param :: string
  patterns :: "js_regex list"

definition dangerousPatterns :: "danger_rule list" where
  "dangerousPatterns =
     [\<lparr>tool = ''bash'', param = ''command'', patterns =
         [\<lparr>body = seqs [Lit CHR '';'', Star Space, lits ''rm'', Plus Space, lits ''-rf''],
           ignoreCase = False\<rparr>,
          \<lparr>body = seqs [lits ''&&'', Star Space, lits ''curl'', Star Dot, Lit CHR ''|'',
                         Star Dot, lits ''sh''],
           ignoreCase = False\<rparr>]\<rparr>,
      \<lparr>tool = ''*'', param = ''path'', patterns =
         [\<lparr>body = lits ''../'', ignoreCase = False\<rparr>]\<rparr>,
      \<lparr>tool = ''*'', param = ''file'', patterns =
         [\<lparr>body = lits ''../'', ignoreCase = False\<rparr>]\<rparr>,
      \<lparr>tool = ''*'', param = ''query'', patterns =
         [\<lparr>body = seqs [Lit CHR '';'', Star Space, lits ''DROP'', Plus Space, lits ''TABLE''],
           ignoreCase = True\<rparr>,
          \<lparr>body = seqs [Lit CHR 0x27, Star Space, lits ''OR'', Plus Space,
                         Lit CHR 0x27, Lit CHR ''1'', Lit CHR 0x27, Star Space, Lit CHR ''='',
                         Star Space, Lit CHR 0x27, Lit CHR ''1''],
           ignoreCase = True\<rparr>]\<rparr>]"

record danger =
  dangerous :: bool
  reason :: "string option"

text \<open>The inner loop: the first expression of the rule that matches the text.\<close>

fun first_match :: "js_regex list \<Rightarrow> string \<Rightarrow> js_regex option" where
  "first_match [] text = None"
| "first_match (rx # rxs) text = (if regex_test rx text then Some rx else first_match rxs text)"

definition danger_reason :: "string \<Rightarrow> js_regex \<Rightarrow> string" where
  "danger_reason field rx =
     ''Potentially dangerous pattern detected in '' @ field @ '': '' @ regex_toString rx"

text \<open>The outer loop over the rule table; \<^verbatim>\<open>continue\<close> goes on with the next rule.\<close>

fun check_rules :: "danger_rule list \<Rightarrow> string \<Rightarrow> obj \<Rightarrow> danger" where
  "check_rules [] toolName params = \<lparr>dangerous = False, reason = None\<rparr>"
| "check_rules (p # ps) toolName params =
     (if tool p \<noteq> ''*'' \<and> tool p \<noteq> toolName then check_rules ps toolName params
      else (case prop_get params (param p) of
              JStr text \<Rightarrow>
                (case first_match (patterns p) text of
                   Some rx \<Rightarrow> \<lparr>dangerous = True, reason = Some (danger_reason (param p) rx)\<rparr>
                 | None \<Rightarrow> check_rules ps toolName params)
            | _ \<Rightarrow> check_rules ps toolName params))"

definition checkDangerousCall :: "string \<Rightarrow> obj \<Rightarrow> danger" where
  "checkDangerousCall toolName params = check_rules dangerousPatterns toolName params"

text \<open>
  A rule \<open>p\<close> fires on a call with its expression \<open>rx\<close>: the tool filter of the rule is
  the wildcard or the tool name, the argument under the key of the rule is a string, and
  the expression matches it.
\<close>

definition fires :: "string \<Rightarrow> obj \<Rightarrow> danger_rule \<Rightarrow> js_regex \<Rightarrow> bool" where
  "fires tn args p rx \<longleftrightarrow>
     (tool p = ''*'' \<or> tool p = tn) \<and> rx \<in> set (patterns p)
     \<and> (\<exists>str. prop_get args (param p) = JStr str \<and> regex_test rx str)"

section \<open>Library functions the validator calls\<close>

text \<open>
  The declared shape of the arguments, as the validator reads it: the declared type of
  each property, and the required properties.
\<close>

record prop_schema =
  type :: "string option"

record tschema =
  properties :: "(string \<times> prop_schema) list option"
  required :: "string list option"

text \<open>
  The functions of the language and of the schema library are parameters of the model:
  \<^verbatim>\<open>JSON.parse\<close> (\<open>None\<close> when it throws), \<^verbatim>\<open>Number\<close> on a string, \<^verbatim>\<open>String\<close>,
  and \<^verbatim>\<open>Value.Check\<close> and \<^verbatim>\<open>Value.Errors\<close> of the schema library, the latter as the
  list of the errors' paths and messages. Every theorem below holds for all of them.
\<close>

record runtime =
  JSON_parse :: "string \<Rightarrow> jsval option"
  js_Number :: "string \<Rightarrow> jsnum"
  js_String :: "jsval \<Rightarrow> string"
  Value_Check :: "tschema \<Rightarrow> obj \<Rightarrow> bool"
  Value_Errors :: "tschema \<Rightarrow> obj \<Rightarrow> (string \<times> string) list"

section \<open>Lenient JSON parser\<close>

definition is_ident_start :: "char \<Rightarrow> bool" where
  "is_ident_start c \<longleftrightarrow>
     c \<in> set ''abcdefghijklmnopqrstuvwxyzABCDEFGHIJKLMNOPQRSTUVWXYZ_''"

definition is_ident_char :: "char \<Rightarrow> bool" where
  "is_ident_char c \<longleftrightarrow> is_ident_start c \<or> c \<in> set ''0123456789''"

text \<open>
  The rest of a match of \<^verbatim>\<open>(\{|\,)\s*([a-zA-Z_][a-zA-Z0-9_]*)\s*:\<close> after its first
  character: white space, an identifier, white space and a colon. The result is the
  identifier (the second group) and the text after the colon. Every piece of the
  expression excludes the first character of the next piece, so there is at most one way
  to match.
\<close>

definition match_key :: "string \<Rightarrow> (string \<times> string) option" where
  "match_key s =
     (case dropWhile is_space s of
        [] \<Rightarrow> None
      | c # cs \<Rightarrow>
          if is_ident_start c
          then (case dropWhile is_space (dropWhile is_ident_char cs) of
                  [] \<Rightarrow> None
                | d # rest \<Rightarrow>
                    if d = CHR '':'' then Some (c # takeWhile is_ident_char cs, rest) else None)
          else None)"

text \<open>
  \<^verbatim>\<open>fixed.replace(/(\{|\,)\s*([a-zA-Z_][a-zA-Z0-9_]*)\s*:/g, '$1"$2":')\<close>: at every match,
  from left to right, the opening character, the identifier in double quotes and a colon;
  the search goes on after the match.
\<close>

function fix_keys :: "string \<Rightarrow> string" where
  "fix_keys [] = []"
| "fix_keys (c # s) =
     (if c = CHR ''{'' \<or> c = CHR '','' then
        (case match_key s of
           Some (ident, rest) \<Rightarrow> c # CHR 0x22 # ident @ CHR 0x22 # CHR '':'' # fix_keys rest
         | None \<Rightarrow> c # fix_keys s)
      else c # fix_keys s)"
  by pat_completeness auto

lemma match_key_shorter: "match_key s = Some (ident, rest) \<Longrightarrow> length rest < length s"
proof -
  assume m: "match_key s = Some (ident, rest)"
  then obtain c cs where s1: "dropWhile is_space s = c # cs"
    by (auto simp: match_key_def split: list.splits)
  with m obtain d where s2: "dropWhile is_space (dropWhile is_ident_char cs) = d # rest"
    by (auto simp: match_key_def split: list.splits if_splits)
  have "length (d # rest) \<le> length cs"
    unfolding s2[symmetric]
    by (rule order_trans[OF length_dropWhile_le length_dropWhile_le])
  moreover have "length (c # cs) \<le> length s"
    unfolding s1[symmetric] by (rule length_dropWhile_le)
  ultimately show ?thesis by simp
qed

termination fix_keys
  by (relation "measure length") (auto dest: match_key_shorter)

text \<open>\<^verbatim>\<open>fixed.replace(/'/g, '"')\<close>.\<close>

definition fix_quotes :: "string \<Rightarrow> string" where
  "fix_quotes s = map (\<lambda>c. if c = CHR 0x27 then CHR 0x22 else c) s"

text \<open>
  The rest of a match of \<^verbatim>\<open>,\s*([\}\]])\<close> after the comma: the closing character (the
  group) and the text after it.
\<close>

definition match_closer :: "string \<Rightarrow> (char \<times> string) option" where
  "match_closer s =
     (case dropWhile is_space s of
        [] \<Rightarrow> None
      | d # rest \<Rightarrow> if d = CHR ''}'' \<or> d = CHR '']'' then Some (d, rest) else None)"

text \<open>\<^verbatim>\<open>fixed.replace(/,\s*([\}\]])/g, "$1")\<close>.\<close>

function fix_trailing :: "string \<Rightarrow> string" where
  "fix_trailing [] = []"
| "fix_trailing (c # s) =
     (if c = CHR '','' then
        (case match_closer s of
           Some (d, rest) \<Rightarrow> d # fix_trailing rest
         | None \<Rightarrow> c # fix_trailing s)
      else c # fix_trailing s)"
  by pat_completeness auto

lemma match_closer_shorter: "match_closer s = Some (d, rest) \<Longrightarrow> length rest < length s"
proof -
  assume m: "match_closer s = Some (d, rest)"
  then have s1: "dropWhile is_space s = d # rest"
    by (auto simp: match_closer_def split: list.splits if_splits)
  have "length (d # rest) \<le> length s"
    unfolding s1[symmetric] by (rule length_dropWhile_le)
  then show ?thesis by simp
qed

termination fix_trailing
  by (relation "measure length") (auto dest: match_closer_shorter)

text \<open>
  \<^verbatim>\<open>tryParseJson\<close>: the pair of \<^verbatim>\<open>parsed\<close> and \<^verbatim>\<open>success\<close>. A \<^verbatim>\<open>SyntaxError\<close> of
  \<^verbatim>\<open>JSON.parse\<close> is caught each time it is called.
\<close>

definition tryParseJson :: "runtime \<Rightarrow> jsval \<Rightarrow> jsval \<times> bool" where
  "tryParseJson rt v =
     (case v of
        JStr s \<Rightarrow>
          (case JSON_parse rt s of
             Some parsed \<Rightarrow> (parsed, True)
           | None \<Rightarrow>
               (let fixed = fix_trailing (fix_quotes (fix_keys s))
                in case JSON_parse rt fixed of
                     Some parsed \<Rightarrow> (parsed, True)
                   | None \<Rightarrow> (v, False)))
      | _ \<Rightarrow> (v, True))"

section \<open>Type coercion\<close>

text \<open>
  \<^verbatim>\<open>coerceValue\<close>: the pair of \<^verbatim>\<open>value\<close> and \<^verbatim>\<open>coerced\<close>. Every case of the
  \<^verbatim>\<open>switch\<close> that returns nothing falls through to the last line.
\<close>

definition coerceValue :: "runtime \<Rightarrow> jsval \<Rightarrow> string \<Rightarrow> jsval \<times> bool" where
  "coerceValue rt v expectedType =
     (if v = JUndefined \<or> v = JNull then (v, False)
      else if expectedType = ''string'' then
        (if \<not> is_string v then (JStr (js_String rt v), True) else (v, False))
      else if expectedType = ''number'' \<or> expectedType = ''integer'' then
        (case v of
           JStr s \<Rightarrow>
             (let num = js_Number rt s in if \<not> isNaN num then (JNum num, True) else (v, False))
         | _ \<Rightarrow> (v, False))
      else if expectedType = ''boolean'' then
        (case v of
           JStr s \<Rightarrow>
             (let lower = toLowerCase s
              in if lower = ''true'' \<or> lower = ''1'' \<or> lower = ''yes'' then (JBool True, True)
                 else if lower = ''false'' \<or> lower = ''0'' \<or> lower = ''no'' then (JBool False, True)
                 else (v, False))
         | JNum n \<Rightarrow> (JBool (n \<noteq> Finite 0), True)
         | _ \<Rightarrow> (v, False))
      else if expectedType = ''array'' then
        (case v of
           JStr s \<Rightarrow>
             (let (parsed, success) = tryParseJson rt v
              in if success \<and> is_array parsed then (parsed, True)
                 else if CHR '','' \<in> set s then (JArr (map (\<lambda>p. JStr (trim p)) (split CHR '','' s)), True)
                 else (JArr [v], True))
         | _ \<Rightarrow> (v, False))
      else if expectedType = ''object'' then
        (case v of
           JStr s \<Rightarrow>
             (let (parsed, success) = tryParseJson rt v
              in if success \<and> is_object parsed then (parsed, True) else (v, False))
         | _ \<Rightarrow> (v, False))
      else (v, False))"

section \<open>Configuration and verdict\<close>

datatype RepairStrategy = Coerce | Default | Prompt | Block

text \<open>
  \<^verbatim>\<open>PluginConfig\<close>: every field is optional. \<^verbatim>\<open>customValidators\<close> is never read and is
  left out.
\<close>

record PluginConfig =
  enabled :: "bool option"
  repairStrategy :: "RepairStrategy option"
  blockOnValidationFailure :: "bool option"
  blockDangerousCalls :: "bool option"
  allowToolNameFuzzyMatch :: "bool option"
  maxFuzzyMatchDistance :: "rat option"
  logValidationErrors :: "bool option"
  strictMode :: "bool option"

record ValidationResult =
  valid :: bool
  errors :: "string list"
  repaired :: "obj option"
  blocked :: bool
  blockReason :: "string option"

text \<open>\<^verbatim>\<open>ToolSchema\<close>; its field \<^verbatim>\<open>required\<close> is never read and is left out.\<close>

record ToolSchema =
  name :: string
  parameters :: "tschema option"

section \<open>Validation\<close>

text \<open>
  One round of the loop over \<^verbatim>\<open>Object.entries(properties)\<close>; the state is the working
  copy \<^verbatim>\<open>repaired\<close> (here \<open>working\<close>) and the flag \<^verbatim>\<open>anyCoerced\<close>. \<^verbatim>\<open>prop.type\<close> is true when it is
  a string that is not empty.
\<close>

definition coerce_entry :: "runtime \<Rightarrow> string \<times> prop_schema \<Rightarrow> obj \<times> bool \<Rightarrow> obj \<times> bool" where
  "coerce_entry rt entry state =
     (let (key, prop) = entry; (working, anyCoerced) = state
      in case type prop of
           None \<Rightarrow> state
         | Some t \<Rightarrow>
             if t \<noteq> [] \<and> prop_get working key \<noteq> JUndefined
             then (let (v, coerced) = coerceValue rt (prop_get working key) t
                   in if coerced then (prop_set working key v, True) else state)
             else state)"

definition coerce_properties :: "runtime \<Rightarrow> tschema \<Rightarrow> obj \<Rightarrow> obj \<times> bool" where
  "coerce_properties rt sp params =
     fold (coerce_entry rt) (case properties sp of None \<Rightarrow> [] | Some ps \<Rightarrow> ps) (params, False)"

definition format_errors :: "runtime \<Rightarrow> tschema \<Rightarrow> obj \<Rightarrow> string list" where
  "format_errors rt sp params = map (\<lambda>(path, message). path @ '': '' @ message) (Value_Errors rt sp params)"

text \<open>
  The schema part of \<^verbatim>\<open>validateToolCall\<close>: the values of \<^verbatim>\<open>errors\<close> and \<^verbatim>\<open>repaired\<close>
  when it is done.
\<close>

definition check_schema :: "PluginConfig \<Rightarrow> runtime \<Rightarrow> obj \<Rightarrow> ToolSchema option \<Rightarrow> string list \<times> obj option" where
  "check_schema cfg rt params schema =
     (case schema of
        None \<Rightarrow> ([], None)
      | Some sch \<Rightarrow>
          (case parameters sch of
             None \<Rightarrow> ([], None)
           | Some sp \<Rightarrow>
               if Value_Check rt sp params then ([], None)
               else if repairStrategy cfg = Some Coerce \<or> repairStrategy cfg = None then
                 (let (working, anyCoerced) = coerce_properties rt sp params
                  in if anyCoerced \<and> Value_Check rt sp working then ([], Some working)
                     else (format_errors rt sp params, None))
               else (format_errors rt sp params, None)))"

text \<open>\<^verbatim>\<open>danger.reason || "Dangerous call detected"\<close>.\<close>

definition reason_or_default :: "string option \<Rightarrow> string" where
  "reason_or_default r =
     (case r of None \<Rightarrow> ''Dangerous call detected''
      | Some text \<Rightarrow> if text = [] then ''Dangerous call detected'' else text)"

definition validateToolCall :: "PluginConfig \<Rightarrow> runtime \<Rightarrow> string \<Rightarrow> obj \<Rightarrow> ToolSchema option \<Rightarrow> ValidationResult" where
  "validateToolCall cfg rt toolName params schema =
     (if blockDangerousCalls cfg \<noteq> Some False \<and> dangerous (checkDangerousCall toolName params)
      then \<lparr>valid = False,
            errors = [reason_or_default (reason (checkDangerousCall toolName params))],
            repaired = None,
            blocked = True,
            blockReason = reason (checkDangerousCall toolName params)\<rparr>
      else (let (errs, rep) = check_schema cfg rt params schema
            in if errs \<noteq> [] \<and> blockOnValidationFailure cfg = Some True
               then \<lparr>valid = (errs = []), errors = errs, repaired = rep, blocked = True,
                     blockReason = Some (''Validation failed: '' @ join '', '' errs)\<rparr>
               else \<lparr>valid = (errs = []), errors = errs, repaired = rep, blocked = False,
                     blockReason = None\<rparr>))"

section \<open>Hooks\<close>

text \<open>
  The state the hooks share: the four counters of \<^verbatim>\<open>stats\<close>, the set
  \<^verbatim>\<open>availableTools\<close> in insertion order, and what was written to the logger.
\<close>

datatype log_entry = Info string | Warn string

record plugin_state =
  stats_validated :: nat
  stats_repaired :: nat
  stats_blocked :: nat
  stats_errors :: nat
  availableTools :: "string list"
  logged :: "log_entry list"

record tool_event =
  event_toolName :: string
  event_params :: obj

text \<open>What the handler returns: \<^verbatim>\<open>undefined\<close>, a block decision, or new parameters.\<close>

datatype hook_result = Proceed | BlockCall "string option" | ReplaceParams obj

definition log_if :: "PluginConfig \<Rightarrow> log_entry \<Rightarrow> plugin_state \<Rightarrow> plugin_state" where
  "log_if cfg entry st =
     (if logValidationErrors cfg \<noteq> Some False then st\<lparr>logged := logged st @ [entry]\<rparr> else st)"

text \<open>The fuzzy match of the tool name: it only writes to the log.\<close>

definition fuzzy_log :: "PluginConfig \<Rightarrow> string \<Rightarrow> plugin_state \<Rightarrow> plugin_state" where
  \<open>fuzzy_log cfg tn st =
     (if allowToolNameFuzzyMatch cfg \<noteq> Some False \<and> availableTools st \<noteq> [] then
        (let r = findClosestToolName tn (availableTools st)
         in case (match r, distance r) of
              (Some m, enat d) \<Rightarrow>
                if m \<noteq> [] \<and> m \<noteq> tn
                   \<and> of_nat d \<le> (case maxFuzzyMatchDistance cfg of None \<Rightarrow> 2 | Some k \<Rightarrow> k)
                then log_if cfg (Info (''tool-validator: fuzzy matched "'' @ tn @ ''" -> "'' @ m
                                        @ ''" (distance: '' @ show_nat d @ '')'')) st
                else st
            | _ \<Rightarrow> st)
      else st)\<close>

text \<open>
  The handler from the verdict on: what it returns and the state it leaves, for the
  verdict \<open>result\<close> of \<^verbatim>\<open>validateToolCall\<close>.
\<close>

definition apply_verdict :: "PluginConfig \<Rightarrow> string \<Rightarrow> ValidationResult \<Rightarrow> plugin_state \<Rightarrow> hook_result \<times> plugin_state" where
  "apply_verdict cfg tn result st =
     (if blocked result then
        (BlockCall (blockReason result),
         log_if cfg (Warn (''tool-validator: blocked '' @ tn @ '': ''
                           @ (case blockReason result of None \<Rightarrow> ''undefined'' | Some r \<Rightarrow> r)))
           (st\<lparr>stats_blocked := stats_blocked st + 1\<rparr>))
      else if \<not> valid result then
        (let st1 = log_if cfg (Warn (''tool-validator: validation errors for '' @ tn @ '': ''
                                     @ join '', '' (errors result)))
                     (st\<lparr>stats_errors := stats_errors st + 1\<rparr>)
         in case repaired result of
              Some rep \<Rightarrow>
                (ReplaceParams rep,
                 log_if cfg (Info (''tool-validator: repaired '' @ tn @ '' params''))
                   (st1\<lparr>stats_repaired := stats_repaired st1 + 1\<rparr>))
            | None \<Rightarrow>
                if strictMode cfg = Some True
                then (BlockCall (Some (''Validation failed: '' @ join '', '' (errors result))), st1)
                else (Proceed, st1))
      else (Proceed, st))"

text \<open>The \<^verbatim>\<open>before_tool_call\<close> handler: it calls \<^verbatim>\<open>validateToolCall\<close> without a schema.\<close>

definition before_tool_call :: "PluginConfig \<Rightarrow> runtime \<Rightarrow> tool_event \<Rightarrow> plugin_state \<Rightarrow> hook_result \<times> plugin_state" where
  "before_tool_call cfg rt event st =
     (let st1 = st\<lparr>stats_validated := stats_validated st + 1\<rparr>;
          st2 = fuzzy_log cfg (event_toolName event) st1;
          result = validateToolCall cfg rt (event_toolName event) (event_params event) None
      in apply_verdict cfg (event_toolName event) result st2)"

text \<open>The \<^verbatim>\<open>after_tool_call\<close> handler: \<^verbatim>\<open>availableTools.add(event.toolName)\<close>.\<close>

definition after_tool_call :: "tool_event \<Rightarrow> plugin_state \<Rightarrow> plugin_state" where
  "after_tool_call event st =
     (if event_toolName event \<in> set (availableTools st) then st
      else st\<lparr>availableTools := availableTools st @ [event_toolName event]\<rparr>)"

definition initial_state :: plugin_state where
  "initial_state = \<lparr>stats_validated = 0, stats_repaired = 0, stats_blocked = 0, stats_errors = 0,
                     availableTools = [], logged = []\<rparr>"

section \<open>An instance of the library functions\<close>

text \<open>
  A reference instance of \<^typ>\<open>runtime\<close>, to run the validator on concrete calls: a parser
  for the JSON grammar, the numeric strings of \<^verbatim>\<open>Number\<close> in decimal notation, the
  string conversion, and a checker for the declared types and the required properties
  of a schema.
\<close>

definition is_digit :: "char \<Rightarrow> bool" where
  "is_digit c \<longleftrightarrow> c \<in> set ''0123456789''"

definition digit_value :: "char \<Rightarrow> nat" where
  "digit_value c = of_char c - 48"

definition digits_value :: "string \<Rightarrow> nat" where
  "digits_value ds = foldl (\<lambda>acc d. 10 * acc + digit_value d) 0 ds"

definition is_json_space :: "char \<Rightarrow> bool" where
  "is_json_space c \<longleftrightarrow> c \<in> set [CHR 0x20, CHR 0x09, CHR 0x0A, CHR 0x0D]"

definition skip_ws :: "string \<Rightarrow> string" where
  "skip_ws s = dropWhile is_json_space s"

text \<open>An optional exponent part: the power of ten and the rest, \<open>None\<close> when malformed.\<close>

definition parse_exponent :: "string \<Rightarrow> (int \<times> string) option" where
  "parse_exponent s =
     (case s of
        [] \<Rightarrow> Some (0, s)
      | e # r \<Rightarrow>
          if e = CHR ''e'' \<or> e = CHR ''E'' then
            (let (neg, r1) = (case r of [] \<Rightarrow> (False, r)
                               | sg # r' \<Rightarrow> if sg = CHR ''-'' then (True, r')
                                            else if sg = CHR ''+'' then (False, r') else (False, r));
                 ds = takeWhile is_digit r1
             in if ds = [] then None
                else Some ((if neg then - int (digits_value ds) else int (digits_value ds)),
                           dropWhile is_digit r1))
          else Some (0, s))"

definition scale10 :: "rat \<Rightarrow> int \<Rightarrow> rat" where
  "scale10 q e = (if 0 \<le> e then q * 10 ^ nat e else q / 10 ^ nat (- e))"

text \<open>A JSON number: sign, integer part without a leading zero, fraction, exponent.\<close>

definition parse_number :: "string \<Rightarrow> (rat \<times> string) option" where
  "parse_number s =
     (let (neg, s1) = (case s of [] \<Rightarrow> (False, s)
                        | c # r \<Rightarrow> if c = CHR ''-'' then (True, r) else (False, s));
          ip = takeWhile is_digit s1;
          s2 = dropWhile is_digit s1
      in if ip = [] \<or> (1 < length ip \<and> hd ip = CHR ''0'') then None
         else
           (let (fp, s3) = (case s2 of [] \<Rightarrow> (Some [], s2)
                             | c # r \<Rightarrow>
                                 if c = CHR ''.''
                                 then (if takeWhile is_digit r = [] then None
                                       else Some (takeWhile is_digit r), dropWhile is_digit r)
                                 else (Some [], s2))
            in case fp of
                 None \<Rightarrow> None
               | Some fd \<Rightarrow>
                   (case parse_exponent s3 of
                      None \<Rightarrow> None
                    | Some (e, rest) \<Rightarrow>
                        (let m = of_nat (digits_value ip) + of_nat (digits_value fd) / 10 ^ length fd
                         in Some (scale10 (if neg then - m else m) e, rest)))))"

definition hex_value :: "char \<Rightarrow> nat option" where
  "hex_value c =
     (if is_digit c then Some (digit_value c)
      else if c \<in> set ''abcdef'' then Some (of_char c - 87)
      else if c \<in> set ''ABCDEF'' then Some (of_char c - 55)
      else None)"

definition unescape :: "char \<Rightarrow> char option" where
  "unescape e =
     (if e = CHR 0x22 \<or> e = CHR 0x5C \<or> e = CHR ''/'' then Some e
      else if e = CHR ''b'' then Some (CHR 0x08)
      else if e = CHR ''f'' then Some (CHR 0x0C)
      else if e = CHR ''n'' then Some (CHR 0x0A)
      else if e = CHR ''r'' then Some (CHR 0x0D)
      else if e = CHR ''t'' then Some (CHR 0x09)
      else None)"

definition unicode_escape :: "char \<Rightarrow> char \<Rightarrow> char \<Rightarrow> char \<Rightarrow> char option" where
  "unicode_escape a b c d =
     (case (hex_value a, hex_value b, hex_value c, hex_value d) of
        (Some x, Some y, Some z, Some w) \<Rightarrow>
          if x = 0 \<and> y = 0 then Some (char_of (16 * z + w)) else None
      | _ \<Rightarrow> None)"

definition cons_string :: "char \<Rightarrow> (string \<times> string) option \<Rightarrow> (string \<times> string) option" where
  "cons_string c r = (case r of None \<Rightarrow> None | Some (str, rest) \<Rightarrow> Some (c # str, rest))"

text \<open>
  The text of a JSON string after its opening quote, up to the closing one. An escape
  \<^verbatim>\<open>\uXXXX\<close> is read when its code unit is below 256.
\<close>

fun parse_string :: "string \<Rightarrow> (string \<times> string) option" where
  "parse_string [] = None"
| "parse_string [c] = (if c = CHR 0x22 then Some ([], []) else None)"
| "parse_string (c # e # r) =
     (if c = CHR 0x22 then Some ([], e # r)
      else if c = CHR 0x5C then
        (if e = CHR ''u'' then
           (case r of
              a # b # x # y # r' \<Rightarrow>
                (case unicode_escape a b x y of
                   None \<Rightarrow> None
                 | Some u \<Rightarrow> cons_string u (parse_string r'))
            | _ \<Rightarrow> None)
         else (case unescape e of None \<Rightarrow> None | Some u \<Rightarrow> cons_string u (parse_string r)))
      else if (of_char c :: nat) < 0x20 then None
      else cons_string c (parse_string (e # r)))"

text \<open>
  The value grammar, with a bound on the nesting and the number of members read; every
  call reads at least one character, so the length of the text is bound enough.
\<close>

fun parse_value :: "nat \<Rightarrow> string \<Rightarrow> (jsval \<times> string) option"
  and parse_elements :: "nat \<Rightarrow> jsval list \<Rightarrow> string \<Rightarrow> (jsval list \<times> string) option"
  and parse_members :: "nat \<Rightarrow> obj \<Rightarrow> string \<Rightarrow> (obj \<times> string) option" where
  "parse_value 0 s = None"
| "parse_value (Suc n) s =
     (case skip_ws s of
        [] \<Rightarrow> None
      | c # r \<Rightarrow>
          if c = CHR ''{'' then
            (case skip_ws r of
               [] \<Rightarrow> None
             | d # r' \<Rightarrow>
                 if d = CHR ''}'' then Some (JObj [], r')
                 else (case parse_members n [] r of
                         None \<Rightarrow> None
                       | Some (ob, rest) \<Rightarrow> Some (JObj ob, rest)))
          else if c = CHR ''['' then
            (case skip_ws r of
               [] \<Rightarrow> None
             | d # r' \<Rightarrow>
                 if d = CHR '']'' then Some (JArr [], r')
                 else (case parse_elements n [] r of
                         None \<Rightarrow> None
                       | Some (vs, rest) \<Rightarrow> Some (JArr vs, rest)))
          else if c = CHR 0x22 then
            (case parse_string r of None \<Rightarrow> None | Some (str, rest) \<Rightarrow> Some (JStr str, rest))
          else if take 4 (c # r) = ''true'' then Some (JBool True, drop 4 (c # r))
          else if take 5 (c # r) = ''false'' then Some (JBool False, drop 5 (c # r))
          else if take 4 (c # r) = ''null'' then Some (JNull, drop 4 (c # r))
          else (case parse_number (c # r) of
                  None \<Rightarrow> None
                | Some (q, rest) \<Rightarrow> Some (JNum (Finite q), rest)))"
| "parse_elements 0 acc s = None"
| "parse_elements (Suc n) acc s =
     (case parse_value n s of
        None \<Rightarrow> None
      | Some (v, rest) \<Rightarrow>
          (case skip_ws rest of
             [] \<Rightarrow> None
           | d # r \<Rightarrow>
               if d = CHR '','' then parse_elements n (acc @ [v]) r
               else if d = CHR '']'' then Some (acc @ [v], r)
               else None))"
| "parse_members 0 acc s = None"
| "parse_members (Suc n) acc s =
     (case skip_ws s of
        [] \<Rightarrow> None
      | q # r \<Rightarrow>
          if q = CHR 0x22 then
            (case parse_string r of
               None \<Rightarrow> None
             | Some (key, r1) \<Rightarrow>
                 (case skip_ws r1 of
                    [] \<Rightarrow> None
                  | colon # r2 \<Rightarrow>
                      if colon = CHR '':'' then
                        (case parse_value n r2 of
                           None \<Rightarrow> None
                         | Some (v, rest) \<Rightarrow>
                             (case skip_ws rest of
                                [] \<Rightarrow> None
                              | d # r3 \<Rightarrow>
                                  if d = CHR '','' then parse_members n (prop_set acc key v) r3
                                  else if d = CHR ''}'' then Some (prop_set acc key v, r3)
                                  else None))
                      else None))
          else None)"

definition json_parse :: "string \<Rightarrow> jsval option" where
  "json_parse s =
     (case parse_value (Suc (length s)) s of
        None \<Rightarrow> None
      | Some (v, rest) \<Rightarrow> if skip_ws rest = [] then Some v else None)"

text \<open>
  \<^verbatim>\<open>Number(s)\<close> on a string: white space around the text is dropped; the empty text
  is zero; a literal with the prefix \<^verbatim>\<open>0x\<close>, \<^verbatim>\<open>0o\<close> or \<^verbatim>\<open>0b\<close> is read in its base;
  \<^verbatim>\<open>Infinity\<close> and a decimal literal may carry a sign; every other text is \<^verbatim>\<open>NaN\<close>. The
  number is the exact value of the literal: the rounding to the nearest double is not
  part of this instance.
\<close>

definition radix_digits :: "nat \<Rightarrow> string \<Rightarrow> nat option" where
  "radix_digits base ds =
     (if ds \<noteq> [] \<and> list_all (\<lambda>d. case hex_value d of None \<Rightarrow> False | Some v \<Rightarrow> v < base) ds
      then Some (foldl (\<lambda>acc d. base * acc + (case hex_value d of None \<Rightarrow> 0 | Some v \<Rightarrow> v)) 0 ds)
      else None)"

definition radix_literal :: "string \<Rightarrow> nat option" where
  "radix_literal s =
     (case s of
        z # x # ds \<Rightarrow>
          if z \<noteq> CHR ''0'' then None
          else if x = CHR ''x'' \<or> x = CHR ''X'' then radix_digits 16 ds
          else if x = CHR ''o'' \<or> x = CHR ''O'' then radix_digits 8 ds
          else if x = CHR ''b'' \<or> x = CHR ''B'' then radix_digits 2 ds
          else None
      | _ \<Rightarrow> None)"

definition decimal_literal :: "string \<Rightarrow> rat option" where
  "decimal_literal s =
     (let ip = takeWhile is_digit s;
          s2 = dropWhile is_digit s;
          (fd, s3) = (case s2 of [] \<Rightarrow> ([], s2)
                      | c # r \<Rightarrow> if c = CHR ''.'' then (takeWhile is_digit r, dropWhile is_digit r)
                                 else ([], s2))
      in if ip = [] \<and> fd = [] then None
         else (case parse_exponent s3 of
                 None \<Rightarrow> None
               | Some (e, rest) \<Rightarrow>
                   if rest = []
                   then Some (scale10 (of_nat (digits_value ip)
                                        + of_nat (digits_value fd) / 10 ^ length fd) e)
                   else None))"

definition number_of_string :: "string \<Rightarrow> jsnum" where
  "number_of_string s =
     (let t = trim s;
          (neg, u) = (case t of [] \<Rightarrow> (False, t)
                      | c # r \<Rightarrow> if c = CHR ''-'' then (True, r)
                                 else if c = CHR ''+'' then (False, r) else (False, t))
      in if t = [] then Finite 0
         else (case radix_literal t of
                 Some n \<Rightarrow> Finite (of_nat n)
               | None \<Rightarrow>
                   if u = ''Infinity'' then (if neg then NegInfinity else PosInfinity)
                   else (case decimal_literal u of
                           None \<Rightarrow> NaN
                         | Some q \<Rightarrow> Finite (if neg then - q else q))))"

text \<open>
  \<^verbatim>\<open>String(v)\<close>. A finite number is printed in positional notation, with the digits of
  its fraction up to the seventeenth.
\<close>

fun fraction_digits :: "nat \<Rightarrow> rat \<Rightarrow> string" where
  "fraction_digits 0 q = []"
| "fraction_digits (Suc n) q =
     (if q = 0 then []
      else (let d = nat \<lfloor>q * 10\<rfloor>
            in char_of (48 + d) # fraction_digits n (q * 10 - of_nat d)))"

definition string_of_number :: "jsnum \<Rightarrow> string" where
  "string_of_number x =
     (case x of
        NaN \<Rightarrow> ''NaN''
      | PosInfinity \<Rightarrow> ''Infinity''
      | NegInfinity \<Rightarrow> ''-Infinity''
      | Finite q \<Rightarrow>
          (let a = \<bar>q\<bar>; whole = nat \<lfloor>a\<rfloor>; frac = fraction_digits 17 (a - of_nat whole)
           in (if q < 0 then ''-'' else []) @ show_nat whole
              @ (if frac = [] then [] else ''.'' @ frac)))"

fun string_of_value :: "jsval \<Rightarrow> string" where
  "string_of_value JUndefined = ''undefined''"
| "string_of_value JNull = ''null''"
| "string_of_value (JBool b) = (if b then ''true'' else ''false'')"
| "string_of_value (JNum x) = string_of_number x"
| "string_of_value (JStr s) = s"
| "string_of_value (JArr vs) =
     join '','' (map (\<lambda>v. if v = JNull \<or> v = JUndefined then [] else string_of_value v) vs)"
| "string_of_value (JObj ob) = ''[object Object]''"

text \<open>
  The schema checker: a required property must be there, and a property that is there
  must have its declared type. One error for each violation, with the path of the
  property.
\<close>

definition type_matches :: "string \<Rightarrow> jsval \<Rightarrow> bool" where
  "type_matches t v =
     (if t = ''string'' then is_string v
      else if t = ''number'' then (case v of JNum (Finite q) \<Rightarrow> True | _ \<Rightarrow> False)
      else if t = ''integer'' then (case v of JNum (Finite q) \<Rightarrow> of_int \<lfloor>q\<rfloor> = q | _ \<Rightarrow> False)
      else if t = ''boolean'' then (case v of JBool b \<Rightarrow> True | _ \<Rightarrow> False)
      else if t = ''array'' then is_array v
      else if t = ''object'' then (case v of JObj ob \<Rightarrow> True | _ \<Rightarrow> False)
      else if t = ''null'' then v = JNull
      else True)"

definition missing_errors :: "tschema \<Rightarrow> obj \<Rightarrow> (string \<times> string) list" where
  "missing_errors sp args =
     map (\<lambda>key. (''/'' @ key, ''Expected required property''))
       (filter (\<lambda>key. prop_get args key = JUndefined)
          (case required sp of None \<Rightarrow> [] | Some keys \<Rightarrow> keys))"

definition type_errors :: "tschema \<Rightarrow> obj \<Rightarrow> (string \<times> string) list" where
  "type_errors sp args =
     concat (map (\<lambda>(key, prop).
         case type prop of
           None \<Rightarrow> []
         | Some t \<Rightarrow>
             if prop_get args key \<noteq> JUndefined \<and> \<not> type_matches t (prop_get args key)
             then [(''/'' @ key, ''Expected '' @ t)] else [])
       (case properties sp of None \<Rightarrow> [] | Some ps \<Rightarrow> ps))"

definition schema_errors :: "tschema \<Rightarrow> obj \<Rightarrow> (string \<times> string) list" where
  "schema_errors sp args = missing_errors sp args @ type_errors sp args"

definition schema_check :: "tschema \<Rightarrow> obj \<Rightarrow> bool" where
  "schema_check sp args \<longleftrightarrow> schema_errors sp args = []"

definition reference_runtime :: runtime where
  "reference_runtime =
     \<lparr>JSON_parse = json_parse, js_Number = number_of_string, js_String = string_of_value,
      Value_Check = schema_check, Value_Errors = schema_errors\<rparr>"

text \<open>The configuration with no field set, and a schema with one required number.\<close>

definition default_config :: PluginConfig where
  "default_config =
     \<lparr>enabled = None, repairStrategy = None, blockOnValidationFailure = None,
      blockDangerousCalls = None, allowToolNameFuzzyMatch = None, maxFuzzyMatchDistance = None,
      logValidationErrors = None, strictMode = None\<rparr>"

definition count_schema :: ToolSchema where
  "count_schema =
     \<lparr>name = ''search'',
      parameters = Some \<lparr>properties = Some [(''count'', \<lparr>type = Some ''number''\<rparr>)],
                         required = Some [''count'']\<rparr>\<rparr>"

text \<open>
  The invariant of the outer loop: rows \<open>0..k\<close> are tabulated, the rows after them still
  hold their first cell only.
\<close>

definition rows_done :: "string \<Rightarrow> string \<Rightarrow> nat \<Rightarrow> nat \<Rightarrow> nat \<Rightarrow> matrix \<Rightarrow> bool" where
  "rows_done a b m n k M \<longleftrightarrow>
     length M = Suc m \<and> (\<forall>i\<le>k. M ! i = lev_row a b i n) \<and> (\<forall>i. k < i \<and> i \<le> m \<longrightarrow> M ! i = [i])"

section \<open>Proofs: Levenshtein distance\<close>


lemma init_rows_eq: "init_rows m = map (\<lambda>i. [i]) [0..<Suc m]"
proof -
  have "fold (\<lambda>i M. assign M i [i]) [0..<k] [] = map (\<lambda>i. [i]) [0..<k]" for k
    by (induction k) (simp_all add: assign_def)
  then show ?thesis by (simp only: init_rows_def)
qed

lemma init_first_row_eq:
  assumes "M \<noteq> []" "M ! 0 = [0]"
  shows "init_first_row n M = M[0 := [0..<Suc n]]"
proof -
  have "fold (\<lambda>j M. set_cell M 0 j j) [0..<Suc k] M = M[0 := [0..<Suc k]]" for k
  proof (induction k)
    case 0
    show ?case using assms by (simp add: set_cell_def assign_def)
  next
    case (Suc k)
    have "fold (\<lambda>j M. set_cell M 0 j j) [0..<Suc (Suc k)] M
        = set_cell (fold (\<lambda>j M. set_cell M 0 j j) [0..<Suc k] M) 0 (Suc k) (Suc k)"
      by (simp del: upt_Suc add: upt_Suc_append[of 0 "Suc k"])
    also have "\<dots> = set_cell (M[0 := [0..<Suc k]]) 0 (Suc k) (Suc k)"
      by (simp only: Suc.IH)
    also have "\<dots> = M[0 := [0..<Suc (Suc k)]]"
      using assms by (simp add: set_cell_def assign_def)
    finally show ?case .
  qed
  then show ?thesis by (simp only: init_first_row_def)
qed


lemma lev_row_nth: "j \<le> k \<Longrightarrow> lev_row a b i k ! j = lev_cell a b i j"
  unfolding lev_row_def by (metis add_0 le_imp_less_Suc nth_map_upt minus_nat.diff_0)

lemma lev_row_length: "length (lev_row a b i k) = Suc k"
  by (simp add: lev_row_def)

lemma lev_row_Suc: "lev_row a b i (Suc k) = lev_row a b i k @ [lev_cell a b i (Suc k)]"
  by (simp add: lev_row_def)

lemma lev_row_0: "lev_row a b i 0 = [i]"
  by (cases i) (simp_all add: lev_row_def)

lemma fill_row_prefix:
  assumes len: "Suc i < length M"
    and prev: "M ! i = lev_row a b i n"
    and cur: "M ! Suc i = [Suc i]"
    and k: "k \<le> n"
  shows "fold (\<lambda>j M. set_cell M (Suc i) j (cell_value a b M (Suc i) j)) [1..<Suc k] M
           = M[Suc i := lev_row a b (Suc i) k]"
  using k
proof (induction k)
  case 0
  have "M[Suc i := [Suc i]] = M" using cur by (metis list_update_id)
  then show ?case by (simp add: lev_row_0)
next
  case (Suc k)
  let ?M' = "M[Suc i := lev_row a b (Suc i) k]"
  have k: "k \<le> n" "Suc k \<le> n" using Suc.prems by simp_all
  have row: "?M' ! Suc i = lev_row a b (Suc i) k" using len by simp
  have up: "?M' ! i = lev_row a b i n" using prev by simp
  have cv: "cell_value a b ?M' (Suc i) (Suc k) = lev_cell a b (Suc i) (Suc k)"
    by (simp add: cell_value_def row up lev_row_nth k)
  have "fold (\<lambda>j M. set_cell M (Suc i) j (cell_value a b M (Suc i) j)) [1..<Suc (Suc k)] M
      = set_cell ?M' (Suc i) (Suc k) (cell_value a b ?M' (Suc i) (Suc k))"
    using Suc.IH k(1) by simp
  also have "\<dots> = M[Suc i := lev_row a b (Suc i) (Suc k)]"
    using len by (simp add: set_cell_def assign_def row cv lev_row_length lev_row_Suc)
  finally show ?case .
qed

lemma fill_row_eq:
  assumes "Suc i < length M" "M ! i = lev_row a b i n" "M ! Suc i = [Suc i]"
  shows "fill_row a b n (Suc i) M = M[Suc i := lev_row a b (Suc i) n]"
  unfolding fill_row_def using fill_row_prefix[OF assms, of n] by simp

lemma rows_done_init:
  "rows_done a b m n 0 (init_first_row n (init_rows m))"
proof -
  have ne: "init_rows m \<noteq> []" "init_rows m ! 0 = [0]"
    by (simp_all add: init_rows_eq upt_rec[of 0])
  have r0: "lev_row a b 0 n = [0..<Suc n]"
    unfolding lev_row_def by (rule map_idI) simp
  have later: "init_rows m ! i = [i]" if "i \<le> m" for i
    using that unfolding init_rows_eq
    by (metis add_0 le_imp_less_Suc nth_map_upt minus_nat.diff_0)
  show ?thesis
    unfolding rows_done_def init_first_row_eq[OF ne]
    using ne later by (auto simp: init_rows_eq r0 simp del: upt_Suc)
qed

lemma rows_done_step:
  assumes "rows_done a b m n k M" "Suc k \<le> m"
  shows "rows_done a b m n (Suc k) (fill_row a b n (Suc k) M)"
proof -
  from assms have len: "Suc k < length M" and prev: "M ! k = lev_row a b k n"
    and cur: "M ! Suc k = [Suc k]"
    by (auto simp: rows_done_def)
  have eq: "fill_row a b n (Suc k) M = M[Suc k := lev_row a b (Suc k) n]"
    by (rule fill_row_eq[OF len prev cur])
  show ?thesis
    unfolding eq rows_done_def
    using assms len by (auto simp: rows_done_def nth_list_update le_Suc_eq)
qed

lemma rows_done_fill:
  assumes "rows_done a b m (length a) 0 M" "k \<le> m"
  shows "rows_done a b m (length a) k (fold (\<lambda>i M. fill_row a b (length a) i M) [1..<Suc k] M)"
  using assms(2)
proof (induction k)
  case 0
  then show ?case using assms(1) by simp
next
  case (Suc k)
  then have "rows_done a b m (length a) k (fold (\<lambda>i M. fill_row a b (length a) i M) [1..<Suc k] M)"
    by simp
  from rows_done_step[OF this Suc.prems] show ?case
    by simp
qed

lemma levenshteinDistance_lev_cell:
  "levenshteinDistance a b = lev_cell a b (length b) (length a)"
proof -
  have "rows_done a b (length b) (length a) (length b)
          (fill_rows a b (length b) (init_first_row (length a) (init_rows (length b))))"
    unfolding fill_rows_def by (rule rows_done_fill[OF rows_done_init]) simp
  then show ?thesis
    by (simp add: levenshteinDistance_def rows_done_def lev_row_nth)
qed

lemma lev_cell_sym: "lev_cell a b i j = lev_cell b a j i"
proof (induction a b i j rule: lev_cell.induct)
  case (1 a b j)
  then show ?case by (cases j) simp_all
next
  case (2 a b i)
  then show ?case by simp
next
  case (3 a b i j)
  then show ?case by (auto simp: min.commute min.left_commute)
qed

lemma lev_cell_diag: "lev_cell a a i i = 0"
  by (induction i) simp_all

lemma lev_cell_diag_prefix: "\<forall>k<i. b ! k = a ! k \<Longrightarrow> lev_cell a b i i = 0"
  by (induction i) simp_all

lemma lev_cell_off_diag: "\<forall>k<i. b ! k = a ! k \<Longrightarrow> lev_cell a b i (Suc i) \<le> 1"
proof (induction i)
  case 0
  then show ?case by simp
next
  case (Suc i)
  then have ih: "lev_cell a b i (Suc i) \<le> 1" by simp
  have d: "lev_cell a b (Suc i) (Suc i) = 0" using Suc.prems by (rule lev_cell_diag_prefix)
  show ?case using ih d by (simp add: min_def)
qed

lemma lev_drop_last: "levenshteinDistance (xs @ [c]) xs \<le> 1"
proof -
  have "\<forall>k<length xs. xs ! k = (xs @ [c]) ! k" by (simp add: nth_append)
  from lev_cell_off_diag[OF this] show ?thesis
    by (simp add: levenshteinDistance_lev_cell)
qed

text \<open>
  Claim C10. The Levenshtein distance is symmetric, the distance of a string to itself is
  zero, and the distance between "chroma_store" and "chroma_stor" is at most one.
\<close>

theorem levenshtein_symmetric_zero:
  "levenshteinDistance a b = levenshteinDistance b a \<and>
   levenshteinDistance a a = 0 \<and>
   levenshteinDistance ''chroma_store'' ''chroma_stor'' \<le> 1"
proof -
  have "levenshteinDistance a b = levenshteinDistance b a"
    by (simp only: levenshteinDistance_lev_cell lev_cell_sym[of a b])
  moreover have "levenshteinDistance a a = 0"
    by (simp only: levenshteinDistance_lev_cell lev_cell_diag)
  moreover have "levenshteinDistance ''chroma_store'' ''chroma_stor'' \<le> 1"
    using lev_drop_last[of "''chroma_stor''" "CHR ''e''"] by simp
  ultimately show ?thesis by simp
qed

section \<open>Proofs: fuzzy matcher\<close>

lemma lev_self: "levenshteinDistance x x = 0"
  by (simp only: levenshteinDistance_lev_cell lev_cell_diag)

lemma lev_nil: "levenshteinDistance x [] = length x"
  by (simp add: levenshteinDistance_lev_cell)

lemma closest_loop_exact:
  "\<exists>t\<in>set ts. il = toLowerCase t \<Longrightarrow>
   \<exists>t. closest_loop il ts cl md = \<lparr>match = Some t, distance = 0\<rparr>"
proof (induction ts arbitrary: cl md)
  case Nil
  then show ?case by simp
next
  case (Cons t ts)
  show ?case
  proof (cases "il = toLowerCase t")
    case True
    then show ?thesis by simp
  next
    case False
    with Cons.prems have "\<exists>t\<in>set ts. il = toLowerCase t" by simp
    from Cons.IH[OF this] show ?thesis using False by (simp add: Let_def)
  qed
qed

lemma closest_loop_rest:
  "\<forall>t\<in>set post. il \<noteq> toLowerCase t \<and> d \<le> levenshteinDistance il (toLowerCase t) \<Longrightarrow>
   closest_loop il post (Some c) (enat d) = suggest (Some c) (enat d)"
  by (induction post) (simp_all add: Let_def)

lemma closest_loop_skip:
  "\<forall>t\<in>set pre. il \<noteq> toLowerCase t \<and> d < levenshteinDistance il (toLowerCase t) \<Longrightarrow>
   enat d < md \<Longrightarrow>
   \<exists>cl' md'. enat d < md' \<and> closest_loop il (pre @ rest) cl md = closest_loop il rest cl' md'"
proof (induction pre arbitrary: cl md)
  case Nil
  then show ?case by auto
next
  case (Cons t pre)
  then have t: "il \<noteq> toLowerCase t" "d < levenshteinDistance il (toLowerCase t)"
    and pre: "\<forall>t\<in>set pre. il \<noteq> toLowerCase t \<and> d < levenshteinDistance il (toLowerCase t)"
    by simp_all
  show ?case
  proof (cases "enat (levenshteinDistance il (toLowerCase t)) < md")
    case True
    have "enat d < enat (levenshteinDistance il (toLowerCase t))" using t(2) by simp
    from Cons.IH[OF pre this] show ?thesis using t(1) True by (simp add: Let_def)
  next
    case False
    from Cons.IH[OF pre Cons.prems(2)] show ?thesis using t(1) False by (simp add: Let_def)
  qed
qed

lemma closest_loop_first_minimum:
  assumes pre: "\<forall>t\<in>set pre. il \<noteq> toLowerCase t \<and> d < levenshteinDistance il (toLowerCase t)"
    and c: "il \<noteq> toLowerCase c" "d = levenshteinDistance il (toLowerCase c)"
    and post: "\<forall>t\<in>set post. il \<noteq> toLowerCase t \<and> d \<le> levenshteinDistance il (toLowerCase t)"
  shows "closest_loop il (pre @ c # post) None \<infinity> = suggest (Some c) (enat d)"
proof -
  obtain cl' md' where md': "enat d < md'"
    and skip: "closest_loop il (pre @ c # post) None \<infinity> = closest_loop il (c # post) cl' md'"
    using closest_loop_skip[OF pre, of \<infinity> "c # post" None] by auto
  have "closest_loop il (c # post) cl' md' = closest_loop il post (Some c) (enat d)"
    using c md' by (simp add: Let_def)
  with skip closest_loop_rest[OF post] show ?thesis by simp
qed

lemma ceil30_values: "ceil30 0 = 0" "ceil30 1 = 1" "ceil30 10 = 3"
  by (simp_all add: ceil30_def)

lemma findClosestToolName_cases:
  assumes tools: "tools = pre @ c # post"
    and d: "d = levenshteinDistance (toLowerCase input) (toLowerCase c)"
    and pre: "\<forall>t\<in>set pre. d < levenshteinDistance (toLowerCase input) (toLowerCase t)"
    and post: "\<forall>t\<in>set post. d \<le> levenshteinDistance (toLowerCase input) (toLowerCase t)"
  shows "(d = 0 \<and> (\<exists>t. findClosestToolName input tools = \<lparr>match = Some t, distance = 0\<rparr>))
       \<or> findClosestToolName input tools =
            \<lparr>match = (if d \<le> ceil30 (length c) then Some c else None), distance = enat d\<rparr>"
proof (cases "\<exists>t\<in>set tools. toLowerCase input = toLowerCase t")
  case True
  then obtain t where t: "t \<in> set tools" "toLowerCase input = toLowerCase t" by auto
  then have zero: "levenshteinDistance (toLowerCase input) (toLowerCase t) = 0"
    by (simp add: lev_self)
  have "d \<le> levenshteinDistance (toLowerCase input) (toLowerCase t)"
    using t(1) tools d pre post by (auto simp: less_imp_le)
  with zero have d0: "d = 0" by simp
  have "\<exists>t. findClosestToolName input tools = \<lparr>match = Some t, distance = 0\<rparr>"
  proof (cases "input \<in> set tools")
    case True
    then show ?thesis by (simp add: findClosestToolName_def)
  next
    case False
    then show ?thesis
      using closest_loop_exact[OF True, of None \<infinity>] by (simp add: findClosestToolName_def)
  qed
  with d0 show ?thesis by simp
next
  case False
  then have ne: "\<forall>t\<in>set tools. toLowerCase input \<noteq> toLowerCase t" by simp
  then have notin: "input \<notin> set tools" by auto
  have cne: "toLowerCase input \<noteq> toLowerCase c" using ne tools by simp
  have pre': "\<forall>t\<in>set pre. toLowerCase input \<noteq> toLowerCase t
                \<and> d < levenshteinDistance (toLowerCase input) (toLowerCase t)"
    using ne pre tools by simp
  have post': "\<forall>t\<in>set post. toLowerCase input \<noteq> toLowerCase t
                \<and> d \<le> levenshteinDistance (toLowerCase input) (toLowerCase t)"
    using ne post tools by simp
  have loop: "findClosestToolName input tools = suggest (Some c) (enat d)"
    using closest_loop_first_minimum[OF pre' cne d post'] notin tools
    by (simp add: findClosestToolName_def)
  have "c \<noteq> []" if "d \<le> ceil30 (length c)"
  proof
    assume "c = []"
    with that d have "length (toLowerCase input) = 0"
      by (simp add: ceil30_def toLowerCase_def lev_nil)
    with cne \<open>c = []\<close> show False by (simp add: toLowerCase_def)
  qed
  then show ?thesis using loop by (auto simp: suggest_def)
qed

text \<open>
  Claim C9, as amended. Let \<open>c\<close> be the first candidate of least distance \<open>d\<close> to the input
  (both in lower case). \<^verbatim>\<open>findClosestToolName\<close> reports the distance \<open>d\<close>; its match is
  \<^verbatim>\<open>null\<close> when \<open>d\<close> exceeds three tenths of the length of \<open>c\<close>, rounded up, and a
  candidate otherwise. For a candidate of length 1 the bound is 1, so only a distance of
  2 or more gives \<^verbatim>\<open>null\<close>; a candidate of length 10 tolerates a distance up to 3.
\<close>

theorem findClosestToolName_threshold:
  assumes "tools = pre @ c # post"
    and "d = levenshteinDistance (toLowerCase input) (toLowerCase c)"
    and "\<forall>t\<in>set pre. d < levenshteinDistance (toLowerCase input) (toLowerCase t)"
    and "\<forall>t\<in>set post. d \<le> levenshteinDistance (toLowerCase input) (toLowerCase t)"
  shows "distance (findClosestToolName input tools) = enat d
       \<and> (ceil30 (length c) < d \<longrightarrow> match (findClosestToolName input tools) = None)
       \<and> (d \<le> ceil30 (length c) \<longrightarrow> match (findClosestToolName input tools) \<noteq> None)
       \<and> (0 < d \<and> d \<le> ceil30 (length c) \<longrightarrow> match (findClosestToolName input tools) = Some c)
       \<and> (length c = 1 \<and> 2 \<le> d \<longrightarrow> match (findClosestToolName input tools) = None)
       \<and> (length c = 10 \<and> d \<le> 3 \<longrightarrow> match (findClosestToolName input tools) \<noteq> None)"
proof -
  have c1: "ceil30 (length c) = 1" if "length c = 1" using that by (simp add: ceil30_def)
  have c10: "ceil30 (length c) = 3" if "length c = 10" using that by (simp add: ceil30_def)
  from findClosestToolName_cases[OF assms] show ?thesis
  proof
    assume "d = 0 \<and> (\<exists>t. findClosestToolName input tools = \<lparr>match = Some t, distance = 0\<rparr>)"
    then show ?thesis by (auto simp: zero_enat_def)
  next
    assume "findClosestToolName input tools =
            \<lparr>match = (if d \<le> ceil30 (length c) then Some c else None), distance = enat d\<rparr>"
    then show ?thesis using c1 c10 by auto
  qed
qed

theorem findClosestToolName_threshold_witness:
  "distance (findClosestToolName ''chrom_search'' [''chroma_search'', ''chroma_store'']) = enat 1
   \<and> match (findClosestToolName ''chrom_search'' [''chroma_search'', ''chroma_store''])
       = Some ''chroma_search''
   \<and> distance (findClosestToolName ''abc'' [''x'']) = enat 3
   \<and> match (findClosestToolName ''abc'' [''x'']) = None"
proof -
  have a: "[''chroma_search'', ''chroma_store''] = [] @ ''chroma_search'' # [''chroma_store'']"
    by simp
  have b: "1 = levenshteinDistance (toLowerCase ''chrom_search'') (toLowerCase ''chroma_search'')"
    by code_simp
  have c: "\<forall>t\<in>set []. (1::nat) < levenshteinDistance (toLowerCase ''chrom_search'') (toLowerCase t)"
    by simp
  have "(1::nat) \<le> levenshteinDistance (toLowerCase ''chrom_search'') (toLowerCase ''chroma_store'')"
    by code_simp
  then have d: "\<forall>t\<in>set [''chroma_store''].
      (1::nat) \<le> levenshteinDistance (toLowerCase ''chrom_search'') (toLowerCase t)"
    by simp
  have l: "ceil30 (length ''chroma_search'') = 4" by (simp add: ceil30_def)
  have a': "[''x''] = [] @ ''x'' # []" by simp
  have b': "3 = levenshteinDistance (toLowerCase ''abc'') (toLowerCase ''x'')" by code_simp
  have c': "\<forall>t\<in>set []. (3::nat) < levenshteinDistance (toLowerCase ''abc'') (toLowerCase t)"
    by simp
  have d': "\<forall>t\<in>set []. (3::nat) \<le> levenshteinDistance (toLowerCase ''abc'') (toLowerCase t)"
    by simp
  show ?thesis
    using findClosestToolName_threshold[OF a b c d] findClosestToolName_threshold[OF a' b' c' d'] l
    by (simp add: ceil30_def)
qed

text \<open>
  Claim C9 as stated fails: the candidate \<^verbatim>\<open>"x"\<close> has length 1 and distance 1 to
  \<^verbatim>\<open>"y"\<close>, and it is returned as the match.
\<close>

theorem findClosestToolName_length_one_counterexample:
  "length ''x'' = 1
   \<and> 1 \<le> levenshteinDistance (toLowerCase ''y'') (toLowerCase ''x'')
   \<and> findClosestToolName ''y'' [''x''] = \<lparr>match = Some ''x'', distance = 1\<rparr>"
  by code_simp

section \<open>Proofs: danger scanner and verdict\<close>

text \<open>The rule table prints as the literals of the source (\<open>bs\<close> is a backslash, \<open>q\<close> a quote).\<close>

lemma dangerousPatterns_source:
  "bs = [CHR 0x5C] \<Longrightarrow> q = [CHR 0x27] \<Longrightarrow>
   map (\<lambda>p. (tool p, param p, map regex_toString (patterns p))) dangerousPatterns =
     [(''bash'', ''command'',
         [''/;'' @ bs @ ''s*rm'' @ bs @ ''s+-rf/'',
          ''/&&'' @ bs @ ''s*curl.*'' @ bs @ ''|.*sh/'']),
      (''*'', ''path'', [''/'' @ bs @ ''.'' @ bs @ ''.'' @ bs @ ''//'']),
      (''*'', ''file'', [''/'' @ bs @ ''.'' @ bs @ ''.'' @ bs @ ''//'']),
      (''*'', ''query'',
         [''/;'' @ bs @ ''s*DROP'' @ bs @ ''s+TABLE/i'',
          ''/'' @ q @ bs @ ''s*OR'' @ bs @ ''s+'' @ q @ ''1'' @ q @ bs @ ''s*='' @ bs @ ''s*''
            @ q @ ''1/i''])]"
  by (simp add: dangerousPatterns_def regex_toString_def seqs_def lits_def needs_escape_def)

lemma first_match_fires:
  "\<exists>rx\<in>set rxs. regex_test rx str \<Longrightarrow>
   \<exists>rx'\<in>set rxs. regex_test rx' str \<and> first_match rxs str = Some rx'"
  by (induction rxs) auto

lemma first_match_None_iff:
  "first_match rxs str = None \<longleftrightarrow> (\<forall>rx\<in>set rxs. \<not> regex_test rx str)"
  by (induction rxs) auto

lemma check_rules_fires:
  "\<exists>p\<in>set rules. \<exists>rx. fires tn args p rx \<Longrightarrow>
   \<exists>p'\<in>set rules. \<exists>rx'. fires tn args p' rx'
     \<and> check_rules rules tn args = \<lparr>dangerous = True, reason = Some (danger_reason (param p') rx')\<rparr>"
proof (induction rules)
  case Nil
  then show ?case by simp
next
  case (Cons p rules)
  show ?case
  proof (cases "\<exists>rx. fires tn args p rx")
    case True
    then obtain rx str where f: "tool p = ''*'' \<or> tool p = tn" "rx \<in> set (patterns p)"
      "prop_get args (param p) = JStr str" "regex_test rx str"
      by (auto simp: fires_def)
    from first_match_fires[of "patterns p" str] f obtain rx'
      where rx': "rx' \<in> set (patterns p)" "regex_test rx' str"
        "first_match (patterns p) str = Some rx'"
      by blast
    have "fires tn args p rx'" using f rx' by (auto simp: fires_def)
    moreover have "check_rules (p # rules) tn args
        = \<lparr>dangerous = True, reason = Some (danger_reason (param p) rx')\<rparr>"
      using f rx' by auto
    ultimately show ?thesis by auto
  next
    case False
    with Cons.prems have "\<exists>p\<in>set rules. \<exists>rx. fires tn args p rx" by auto
    from Cons.IH[OF this] obtain p' rx' where p': "p' \<in> set rules" "fires tn args p' rx'"
      "check_rules rules tn args = \<lparr>dangerous = True, reason = Some (danger_reason (param p') rx')\<rparr>"
      by auto
    have "check_rules (p # rules) tn args = check_rules rules tn args"
    proof (cases "tool p \<noteq> ''*'' \<and> tool p \<noteq> tn")
      case True
      then show ?thesis by simp
    next
      case applies: False
      show ?thesis
      proof (cases "prop_get args (param p)")
        case (JStr str)
        have "first_match (patterns p) str = None"
          unfolding first_match_None_iff using False applies JStr by (auto simp: fires_def)
        then show ?thesis using applies JStr by simp
      qed (use applies in simp_all)
    qed
    with p' show ?thesis by auto
  qed
qed

lemma danger_reason_not_empty: "reason_or_default (Some (danger_reason field rx)) = danger_reason field rx"
  by (simp add: reason_or_default_def danger_reason_def)


lemma checkDangerousCall_fires:
  assumes "p \<in> set dangerousPatterns" "fires tn args p rx"
  shows "\<exists>p'\<in>set dangerousPatterns. \<exists>rx'. fires tn args p' rx'
     \<and> checkDangerousCall tn args = \<lparr>dangerous = True, reason = Some (danger_reason (param p') rx')\<rparr>"
  unfolding checkDangerousCall_def using assms by (intro check_rules_fires) blast

text \<open>
  Claim C1. When some rule of the table fires on the call (its tool filter is the
  wildcard or the tool name, the argument under its key is a string, and one of its
  expressions matches that string) and \<^verbatim>\<open>blockDangerousCalls\<close> is not \<^verbatim>\<open>false\<close>, the
  verdict of \<^verbatim>\<open>validateToolCall\<close> is blocked and not valid, its block reason names the
  field and the expression of a rule that fires, and it has no repaired arguments,
  whatever the schema, the library functions and the rest of the configuration are.
\<close>

theorem dangerous_call_blocked:
  assumes "blockDangerousCalls cfg \<noteq> Some False"
    and "p \<in> set dangerousPatterns"
    and "tool p = ''*'' \<or> tool p = tn"
    and "prop_get args (param p) = JStr str"
    and "rx \<in> set (patterns p)"
    and "regex_test rx str"
  shows "\<exists>p' rx'. p' \<in> set dangerousPatterns \<and> fires tn args p' rx'
           \<and> validateToolCall cfg rt tn args schema =
               \<lparr>valid = False,
                errors = [''Potentially dangerous pattern detected in '' @ param p' @ '': ''
                          @ regex_toString rx'],
                repaired = None,
                blocked = True,
                blockReason = Some (''Potentially dangerous pattern detected in '' @ param p'
                                    @ '': '' @ regex_toString rx')\<rparr>"
proof -
  have "fires tn args p rx" using assms by (auto simp: fires_def)
  from checkDangerousCall_fires[OF assms(2) this] obtain p' rx'
    where p': "p' \<in> set dangerousPatterns" "fires tn args p' rx'"
      and c: "checkDangerousCall tn args
              = \<lparr>dangerous = True, reason = Some (danger_reason (param p') rx')\<rparr>"
    by auto
  have "validateToolCall cfg rt tn args schema =
      \<lparr>valid = False, errors = [danger_reason (param p') rx'], repaired = None, blocked = True,
       blockReason = Some (danger_reason (param p') rx')\<rparr>"
    using assms(1) by (simp add: validateToolCall_def c danger_reason_not_empty)
  with p' show ?thesis unfolding danger_reason_def by blast
qed

theorem dangerous_call_blocked_witness:
  "blocked (validateToolCall default_config reference_runtime ''bash''
              [(''command'', JStr ''ls; rm -rf /'')] (Some count_schema)) = True
   \<and> valid (validateToolCall default_config reference_runtime ''bash''
              [(''command'', JStr ''ls; rm -rf /'')] (Some count_schema)) = False
   \<and> repaired (validateToolCall default_config reference_runtime ''bash''
              [(''command'', JStr ''ls; rm -rf /'')] (Some count_schema)) = None"
proof -
  let ?p = "\<lparr>tool = ''bash'', param = ''command'', patterns =
         [\<lparr>body = seqs [Lit CHR '';'', Star Space, lits ''rm'', Plus Space, lits ''-rf''],
           ignoreCase = False\<rparr>,
          \<lparr>body = seqs [lits ''&&'', Star Space, lits ''curl'', Star Dot, Lit CHR ''|'',
                         Star Dot, lits ''sh''],
           ignoreCase = False\<rparr>]\<rparr>"
  let ?rx = "\<lparr>body = seqs [Lit CHR '';'', Star Space, lits ''rm'', Plus Space, lits ''-rf''],
           ignoreCase = False\<rparr>"
  have 1: "blockDangerousCalls default_config \<noteq> Some False" by (simp add: default_config_def)
  have 2: "?p \<in> set dangerousPatterns" by (simp add: dangerousPatterns_def)
  have 3: "tool ?p = ''*'' \<or> tool ?p = ''bash''" by simp
  have 4: "prop_get [(''command'', JStr ''ls; rm -rf /'')] (param ?p) = JStr ''ls; rm -rf /''"
    by (simp add: prop_get_def)
  have 5: "?rx \<in> set (patterns ?p)" by simp
  have 6: "regex_test ?rx ''ls; rm -rf /''" by code_simp
  from dangerous_call_blocked[OF 1 2 3 4 5 6, of reference_runtime "Some count_schema"]
  show ?thesis by auto
qed

lemma check_schema_errors_or_repaired:
  "check_schema cfg rt args schema = (errs, rep) \<Longrightarrow> errs \<noteq> [] \<Longrightarrow> rep = None"
  by (auto simp: check_schema_def split: option.splits if_splits prod.splits)

text \<open>
  Claim C3. Every verdict of \<^verbatim>\<open>validateToolCall\<close> that is blocked carries no repaired
  arguments, and every verdict that is valid has no errors.
\<close>

theorem verdict_invariants:
  "(blocked (validateToolCall cfg rt tn args schema)
      \<longrightarrow> repaired (validateToolCall cfg rt tn args schema) = None)
   \<and> (valid (validateToolCall cfg rt tn args schema)
      \<longrightarrow> errors (validateToolCall cfg rt tn args schema) = [])"
proof -
  obtain errs rep where cs: "check_schema cfg rt args schema = (errs, rep)"
    by (cases "check_schema cfg rt args schema")
  from check_schema_errors_or_repaired[OF cs] show ?thesis
    by (auto simp: validateToolCall_def cs)
qed

theorem verdict_invariants_witness:
  "blocked (validateToolCall (default_config\<lparr>blockOnValidationFailure := Some True\<rparr>)
              reference_runtime ''search'' [(''count'', JStr ''abc'')] (Some count_schema)) = True
   \<and> repaired (validateToolCall (default_config\<lparr>blockOnValidationFailure := Some True\<rparr>)
              reference_runtime ''search'' [(''count'', JStr ''abc'')] (Some count_schema)) = None
   \<and> valid (validateToolCall default_config reference_runtime ''search''
              [(''count'', JStr ''5'')] (Some count_schema)) = True
   \<and> errors (validateToolCall default_config reference_runtime ''search''
              [(''count'', JStr ''5'')] (Some count_schema)) = []"
proof -
  have b: "blocked (validateToolCall (default_config\<lparr>blockOnValidationFailure := Some True\<rparr>)
              reference_runtime ''search'' [(''count'', JStr ''abc'')] (Some count_schema))"
    by code_simp
  have v: "valid (validateToolCall default_config reference_runtime ''search''
              [(''count'', JStr ''5'')] (Some count_schema))"
    by code_simp
  from b v
    verdict_invariants[of "default_config\<lparr>blockOnValidationFailure := Some True\<rparr>"
      reference_runtime "''search''" "[(''count'', JStr ''abc'')]" "Some count_schema"]
    verdict_invariants[of default_config reference_runtime "''search''"
      "[(''count'', JStr ''5'')]" "Some count_schema"]
  show ?thesis by simp
qed

section \<open>Proofs: repair\<close>

text \<open>
  Claim C4. A verdict of \<^verbatim>\<open>validateToolCall\<close> that carries repaired arguments has no
  errors, and its repaired arguments are the coerced copy, which passes the check of the
  same schema. When the check of the arguments fails, the call is not blocked as
  dangerous and the strategy is to coerce, but no property was coerced or the coerced
  copy fails the check again, the verdict carries no repaired arguments and keeps the
  errors of the first check.
\<close>

theorem repaired_passes_validation:
  "(\<forall>rep. repaired (validateToolCall cfg rt tn args schema) = Some rep \<longrightarrow>
      (\<exists>sch sp. schema = Some sch \<and> parameters sch = Some sp
         \<and> rep = fst (coerce_properties rt sp args) \<and> snd (coerce_properties rt sp args)
         \<and> Value_Check rt sp rep)
      \<and> errors (validateToolCall cfg rt tn args schema) = []
      \<and> valid (validateToolCall cfg rt tn args schema))
   \<and> (\<forall>sch sp. schema = Some sch \<and> parameters sch = Some sp
         \<and> \<not> (blockDangerousCalls cfg \<noteq> Some False \<and> dangerous (checkDangerousCall tn args))
         \<and> \<not> Value_Check rt sp args
         \<and> (repairStrategy cfg = Some Coerce \<or> repairStrategy cfg = None)
         \<and> (\<not> snd (coerce_properties rt sp args)
             \<or> \<not> Value_Check rt sp (fst (coerce_properties rt sp args))) \<longrightarrow>
      repaired (validateToolCall cfg rt tn args schema) = None
      \<and> errors (validateToolCall cfg rt tn args schema) = format_errors rt sp args)"
  by (auto simp: validateToolCall_def check_schema_def split: option.splits if_splits prod.splits)


theorem repaired_passes_validation_witness:
  "repaired (validateToolCall default_config reference_runtime ''search''
               [(''count'', JStr ''5'')] (Some count_schema)) = Some [(''count'', JNum (Finite 5))]
   \<and> Value_Check reference_runtime
         \<lparr>properties = Some [(''count'', \<lparr>type = Some ''number''\<rparr>)], required = Some [''count'']\<rparr>
         [(''count'', JNum (Finite 5))]
   \<and> errors (validateToolCall default_config reference_runtime ''search''
               [(''count'', JStr ''5'')] (Some count_schema)) = []
   \<and> repaired (validateToolCall default_config reference_runtime ''search''
               [(''count'', JStr ''abc'')] (Some count_schema)) = None
   \<and> errors (validateToolCall default_config reference_runtime ''search''
               [(''count'', JStr ''abc'')] (Some count_schema)) = [''/count: Expected number'']"
proof -
  let ?sp = "\<lparr>properties = Some [(''count'', \<lparr>type = Some ''number''\<rparr>)],
              required = Some [''count'']\<rparr>"
  have sp: "parameters count_schema = Some ?sp" by (simp add: count_schema_def)
  have r5: "repaired (validateToolCall default_config reference_runtime ''search''
               [(''count'', JStr ''5'')] (Some count_schema)) = Some [(''count'', JNum (Finite 5))]"
    by code_simp
  from repaired_passes_validation[of default_config reference_runtime "''search''"
      "[(''count'', JStr ''5'')]" "Some count_schema"] r5 sp
  have ok: "Value_Check reference_runtime ?sp [(''count'', JNum (Finite 5))]"
    and e5: "errors (validateToolCall default_config reference_runtime ''search''
               [(''count'', JStr ''5'')] (Some count_schema)) = []"
    by auto
  have nd: "\<not> dangerous (checkDangerousCall ''search'' [(''count'', JStr ''abc'')])" by code_simp
  have nc: "\<not> Value_Check reference_runtime ?sp [(''count'', JStr ''abc'')]" by code_simp
  have st: "repairStrategy default_config = None" by (simp add: default_config_def)
  have na: "\<not> snd (coerce_properties reference_runtime ?sp [(''count'', JStr ''abc'')])"
    by code_simp
  have fe: "format_errors reference_runtime ?sp [(''count'', JStr ''abc'')]
              = [''/count: Expected number'']"
    by code_simp
  from repaired_passes_validation[of default_config reference_runtime "''search''"
      "[(''count'', JStr ''abc'')]" "Some count_schema"] sp nd nc st na fe
  have "repaired (validateToolCall default_config reference_runtime ''search''
               [(''count'', JStr ''abc'')] (Some count_schema)) = None
      \<and> errors (validateToolCall default_config reference_runtime ''search''
               [(''count'', JStr ''abc'')] (Some count_schema)) = [''/count: Expected number'']"
    by auto
  with r5 ok e5 show ?thesis by simp
qed

section \<open>Proofs: the handler\<close>

lemma validateToolCall_no_schema:
  "validateToolCall cfg rt tn args None =
     (if blockDangerousCalls cfg \<noteq> Some False \<and> dangerous (checkDangerousCall tn args)
      then \<lparr>valid = False,
            errors = [reason_or_default (reason (checkDangerousCall tn args))],
            repaired = None, blocked = True,
            blockReason = reason (checkDangerousCall tn args)\<rparr>
      else \<lparr>valid = True, errors = [], repaired = None, blocked = False, blockReason = None\<rparr>)"
  by (simp add: validateToolCall_def check_schema_def)

text \<open>
  Claim C2. The \<^verbatim>\<open>before_tool_call\<close> handler calls \<^verbatim>\<open>validateToolCall\<close> without a
  schema. For every event, configuration and state it returns a block decision with the
  reason of the danger scanner when the scanner is enabled and reports the call
  dangerous, and \<^verbatim>\<open>undefined\<close> otherwise; it never returns repaired parameters, and
  \<^verbatim>\<open>strictMode\<close> and \<^verbatim>\<open>blockOnValidationFailure\<close> have no part in what it returns.
\<close>

theorem before_tool_call_decision:
  "fst (before_tool_call cfg rt event st) =
     (if blockDangerousCalls cfg \<noteq> Some False
         \<and> dangerous (checkDangerousCall (event_toolName event) (event_params event))
      then BlockCall (reason (checkDangerousCall (event_toolName event) (event_params event)))
      else Proceed)
   \<and> (\<forall>rep. fst (before_tool_call cfg rt event st) \<noteq> ReplaceParams rep)
   \<and> fst (before_tool_call (cfg\<lparr>strictMode := sm, blockOnValidationFailure := bv\<rparr>) rt event st)
       = fst (before_tool_call cfg rt event st)"
  by (simp add: before_tool_call_def validateToolCall_no_schema apply_verdict_def Let_def)

theorem before_tool_call_decision_witness:
  "fst (before_tool_call (default_config\<lparr>strictMode := Some True, blockOnValidationFailure := Some True\<rparr>)
          reference_runtime
          \<lparr>event_toolName = ''search'', event_params = [(''count'', JStr ''abc'')]\<rparr> initial_state)
     = Proceed
   \<and> fst (before_tool_call default_config reference_runtime
          \<lparr>event_toolName = ''read_file'', event_params = [(''path'', JStr ''../../../etc/passwd'')]\<rparr>
          initial_state)
     = BlockCall (Some (''Potentially dangerous pattern detected in path: /''
                        @ [CHR 0x5C] @ ''.'' @ [CHR 0x5C] @ ''.'' @ [CHR 0x5C] @ ''//''))"
proof -
  have a: "\<not> dangerous (checkDangerousCall ''search'' [(''count'', JStr ''abc'')])" by code_simp
  have b: "checkDangerousCall ''read_file'' [(''path'', JStr ''../../../etc/passwd'')]
      = \<lparr>dangerous = True, reason = Some (''Potentially dangerous pattern detected in path: /''
                        @ [CHR 0x5C] @ ''.'' @ [CHR 0x5C] @ ''.'' @ [CHR 0x5C] @ ''//'')\<rparr>"
    by code_simp
  have c: "blockDangerousCalls default_config \<noteq> Some False" by (simp add: default_config_def)
  from a b c
    before_tool_call_decision[of "default_config\<lparr>strictMode := Some True, blockOnValidationFailure := Some True\<rparr>"
      reference_runtime "\<lparr>event_toolName = ''search'', event_params = [(''count'', JStr ''abc'')]\<rparr>"
      initial_state]
    before_tool_call_decision[of default_config reference_runtime
      "\<lparr>event_toolName = ''read_file'', event_params = [(''path'', JStr ''../../../etc/passwd'')]\<rparr>"
      initial_state]
  show ?thesis by simp
qed

section \<open>Proofs: lenient parsing\<close>

text \<open>
  Claim C8. \<^verbatim>\<open>tryParseJson\<close> returns a value that is not a string unchanged, with
  success. A string is parsed strictly first; when that fails, the three repairs are
  applied in turn (quotes around bare keys, double quotes for single quotes, no comma
  before a closing brace or bracket) and the result is parsed strictly once; when that
  fails too, the string comes back unchanged, without success. The function is total:
  an exception of the strict parser is a result here. On the text
  \<^verbatim>\<open>{name: 'bob', age: 30,}\<close> the repairs give \<^verbatim>\<open>{"name": "bob","age": 30}\<close>, and the
  result is the object with \<^verbatim>\<open>name\<close> "bob" and \<^verbatim>\<open>age\<close> 30: for every strict parser
  that rejects the first text and reads that object from the second, and for the parser
  of the JSON grammar.
\<close>

theorem tryParseJson_lenient:
  \<open>(\<not> is_string v \<longrightarrow> tryParseJson rt v = (v, True))
   \<and> (JSON_parse rt s = Some parsed \<longrightarrow> tryParseJson rt (JStr s) = (parsed, True))
   \<and> (JSON_parse rt s = None
        \<and> JSON_parse rt (fix_trailing (fix_quotes (fix_keys s))) = Some parsed \<longrightarrow>
      tryParseJson rt (JStr s) = (parsed, True))
   \<and> (JSON_parse rt s = None
        \<and> JSON_parse rt (fix_trailing (fix_quotes (fix_keys s))) = None \<longrightarrow>
      tryParseJson rt (JStr s) = (JStr s, False))
   \<and> fix_trailing (fix_quotes (fix_keys ''{name: 'bob', age: 30,}''))
       = ''{"name": "bob","age": 30}''
   \<and> (JSON_parse rt ''{name: 'bob', age: 30,}'' = None
        \<and> JSON_parse rt ''{"name": "bob","age": 30}''
            = Some (JObj [(''name'', JStr ''bob''), (''age'', JNum (Finite 30))]) \<longrightarrow>
      tryParseJson rt (JStr ''{name: 'bob', age: 30,}'')
        = (JObj [(''name'', JStr ''bob''), (''age'', JNum (Finite 30))], True))
   \<and> tryParseJson (rt\<lparr>JSON_parse := json_parse\<rparr>) (JStr ''{name: 'bob', age: 30,}'')
       = (JObj [(''name'', JStr ''bob''), (''age'', JNum (Finite 30))], True)\<close>
proof -
  have fixed: \<open>fix_trailing (fix_quotes (fix_keys ''{name: 'bob', age: 30,}''))
       = ''{"name": "bob","age": 30}''\<close>
    by code_simp
  have raw: \<open>json_parse ''{name: 'bob', age: 30,}'' = None\<close>
    by code_simp
  have ok: \<open>json_parse ''{"name": "bob","age": 30}''
      = Some (JObj [(''name'', JStr ''bob''), (''age'', JNum (Finite 30))])\<close>
    by code_simp
  have 1: "\<not> is_string v \<longrightarrow> tryParseJson rt v = (v, True)"
    by (cases v) (simp_all add: tryParseJson_def is_string_def)
  have 2: "tryParseJson rt (JStr s) =
      (case JSON_parse rt s of Some parsed \<Rightarrow> (parsed, True)
       | None \<Rightarrow> (case JSON_parse rt (fix_trailing (fix_quotes (fix_keys s))) of
                    Some parsed \<Rightarrow> (parsed, True) | None \<Rightarrow> (JStr s, False)))" for rt s
    by (simp add: tryParseJson_def Let_def split: option.splits)
  have 3: "JSON_parse rt s = Some parsed \<longrightarrow> tryParseJson rt (JStr s) = (parsed, True)"
    by (simp add: 2 del: fix_keys.simps fix_trailing.simps)
  have 4: "JSON_parse rt s = None
        \<and> JSON_parse rt (fix_trailing (fix_quotes (fix_keys s))) = Some parsed \<longrightarrow>
      tryParseJson rt (JStr s) = (parsed, True)"
    by (simp add: 2 del: fix_keys.simps fix_trailing.simps)
  have 5: "JSON_parse rt s = None
        \<and> JSON_parse rt (fix_trailing (fix_quotes (fix_keys s))) = None \<longrightarrow>
      tryParseJson rt (JStr s) = (JStr s, False)"
    by (simp add: 2 del: fix_keys.simps fix_trailing.simps)
  have 6: \<open>JSON_parse rt ''{name: 'bob', age: 30,}'' = None
        \<and> JSON_parse rt ''{"name": "bob","age": 30}''
            = Some (JObj [(''name'', JStr ''bob''), (''age'', JNum (Finite 30))]) \<longrightarrow>
      tryParseJson rt (JStr ''{name: 'bob', age: 30,}'')
        = (JObj [(''name'', JStr ''bob''), (''age'', JNum (Finite 30))], True)\<close>
    unfolding 2 fixed by simp
  have 7: \<open>tryParseJson (rt\<lparr>JSON_parse := json_parse\<rparr>) (JStr ''{name: 'bob', age: 30,}'')
       = (JObj [(''name'', JStr ''bob''), (''age'', JNum (Finite 30))], True)\<close>
    unfolding 2 fixed by (simp add: raw ok)
  from 1 3 4 5 fixed 6 7 show ?thesis by (intro conjI)
qed

theorem tryParseJson_lenient_witness:
  \<open>tryParseJson reference_runtime (JBool True) = (JBool True, True)
   \<and> tryParseJson reference_runtime (JStr ''[1, 2]'')
       = (JArr [JNum (Finite 1), JNum (Finite 2)], True)
   \<and> tryParseJson reference_runtime (JStr ''{name: 'bob', age: 30,}'')
       = (JObj [(''name'', JStr ''bob''), (''age'', JNum (Finite 30))], True)
   \<and> tryParseJson reference_runtime (JStr ''not valid json {'')
       = (JStr ''not valid json {'', False)\<close>
proof -
  have a: "\<not> is_string (JBool True)" by (simp add: is_string_def)
  have b: "JSON_parse reference_runtime ''[1, 2]'' = Some (JArr [JNum (Finite 1), JNum (Finite 2)])"
    by code_simp
  have c: \<open>JSON_parse reference_runtime ''{name: 'bob', age: 30,}'' = None\<close>
    by code_simp
  have d: \<open>JSON_parse reference_runtime ''{"name": "bob","age": 30}''
      = Some (JObj [(''name'', JStr ''bob''), (''age'', JNum (Finite 30))])\<close>
    by code_simp
  have e: "JSON_parse reference_runtime ''not valid json {'' = None" by code_simp
  have f: "JSON_parse reference_runtime (fix_trailing (fix_quotes (fix_keys ''not valid json {'')))
      = None"
    by code_simp
  show ?thesis
    using tryParseJson_lenient[of "JBool True" reference_runtime "''[1, 2]''"
        "JArr [JNum (Finite 1), JNum (Finite 2)]"]
      tryParseJson_lenient[of "JBool True" reference_runtime "''not valid json {''" JNull]
      a b c d e f
    by simp
qed


section \<open>Proofs: coercion\<close>

lemma digit_not_space: "is_digit c \<Longrightarrow> \<not> is_space c"
  by (auto simp: is_digit_def is_space_def)

lemma trim_no_space_ends:
  assumes "s \<noteq> []" "\<not> is_space (hd s)" "\<not> is_space (last s)"
  shows "trim s = s"
proof -
  have 1: "dropWhile is_space s = s" using assms by (simp add: dropWhile_eq_self_iff)
  have "hd (rev s) = last s" using assms(1) by (simp add: hd_rev)
  then have 2: "dropWhile is_space (rev s) = rev s" using assms by (simp add: dropWhile_eq_self_iff)
  show ?thesis by (simp add: trim_def 1 2)
qed

lemma number_of_blank: "trim s = [] \<Longrightarrow> number_of_string s = Finite 0"
  by (simp add: number_of_string_def)

lemma number_of_digits:
  assumes ne: "s \<noteq> []" and dig: "\<forall>c\<in>set s. is_digit c"
  shows "number_of_string s = Finite (of_nat (digits_value s))"
proof -
  obtain c r where s: "s = c # r" using ne by (cases s) auto
  have c: "is_digit c" using dig s by simp
  have "is_digit (last s)" using dig ne by simp
  then have t: "trim s = s"
    using trim_no_space_ends[OF ne] c s digit_not_space by auto
  have rl: "radix_literal s = None"
  proof (cases r)
    case Nil
    then show ?thesis by (simp add: radix_literal_def s)
  next
    case (Cons x ds)
    then have "is_digit x" using dig s by simp
    then have "x \<notin> set ''xXoObB''" by (auto simp: is_digit_def)
    then show ?thesis by (simp add: radix_literal_def s Cons)
  qed
  have sign: "c \<noteq> CHR ''-''" "c \<noteq> CHR ''+''" "c \<noteq> CHR ''I''"
    using c by (auto simp: is_digit_def)
  have inf: "s \<noteq> ''Infinity''" using sign s by auto
  have tw: "takeWhile is_digit s = s" "dropWhile is_digit s = []" using dig by simp_all
  have dl: "decimal_literal s = Some (of_nat (digits_value s))"
    by (simp add: decimal_literal_def tw ne parse_exponent_def scale10_def digits_value_def)
  have t': "trim (c # r) = c # r" using t s by simp
  show ?thesis
    using sign inf rl dl unfolding s by (simp add: number_of_string_def t')
qed

lemma number_of_other:
  assumes t: "trim s = c # r" and c: "c \<notin> set ''0123456789+-.I''"
  shows "number_of_string s = NaN"
proof -
  have nd: "\<not> is_digit c" using c by (simp add: is_digit_def)
  have rl: "radix_literal (c # r) = None"
    using c by (simp add: radix_literal_def split: list.splits)
  have inf: "c # r \<noteq> ''Infinity''" using c by auto
  have dl: "decimal_literal (c # r) = None"
    using nd c by (simp add: decimal_literal_def)
  show ?thesis using c by (simp add: number_of_string_def t rl dl inf)
qed


lemma coerceValue_number:
  "t = ''number'' \<or> t = ''integer'' \<Longrightarrow>
   coerceValue rt (JStr s) t =
     (if isNaN (js_Number rt s) then (JStr s, False) else (JNum (js_Number rt s), True))"
  by (auto simp: coerceValue_def Let_def)

lemma coerceValue_array:
  "coerceValue rt (JStr s) ''array'' =
     (case JSON_parse rt s of
        Some parsed \<Rightarrow>
          if is_array parsed then (parsed, True)
          else if CHR '','' \<in> set s
          then (JArr (map (\<lambda>piece. JStr (trim piece)) (split CHR '','' s)), True)
          else (JArr [JStr s], True)
      | None \<Rightarrow>
          (case JSON_parse rt (fix_trailing (fix_quotes (fix_keys s))) of
             Some parsed \<Rightarrow>
               if is_array parsed then (parsed, True)
               else if CHR '','' \<in> set s
               then (JArr (map (\<lambda>piece. JStr (trim piece)) (split CHR '','' s)), True)
               else (JArr [JStr s], True)
           | None \<Rightarrow>
               if CHR '','' \<in> set s
               then (JArr (map (\<lambda>piece. JStr (trim piece)) (split CHR '','' s)), True)
               else (JArr [JStr s], True)))"
  by (simp add: coerceValue_def tryParseJson_def Let_def is_array_def split: option.splits
      del: fix_keys.simps fix_trailing.simps)

text \<open>
  Claim C5, as amended. \<^verbatim>\<open>coerceValue\<close> follows the table of the declared types. For
  \<^verbatim>\<open>number\<close> and \<^verbatim>\<open>integer\<close> a string becomes the number \<^verbatim>\<open>Number\<close> reads from it,
  and stays as it is, not coerced, only when that is \<^verbatim>\<open>NaN\<close>: the empty string and a
  string of white space become 0, a string of up to fifteen digits becomes its value,
  and a string whose first character after white space is no digit, sign, point or
  \<^verbatim>\<open>I\<close> stays as it is. For \<^verbatim>\<open>boolean\<close> the strings \<^verbatim>\<open>true\<close>, \<^verbatim>\<open>1\<close> and \<^verbatim>\<open>yes\<close> in any
  case become \<^verbatim>\<open>true\<close>, the strings \<^verbatim>\<open>false\<close>, \<^verbatim>\<open>0\<close> and \<^verbatim>\<open>no\<close> become \<^verbatim>\<open>false\<close>, every
  other string stays as it is, and a number becomes whether it differs from zero. For
  \<^verbatim>\<open>array\<close> a string becomes the array that the strict parser, or after the three
  repairs the strict parser again, reads from it; when neither reads an array it becomes
  its pieces between commas, trimmed, when it has a comma, else the array of the string
  alone.
\<close>

theorem coerceValue_table:
  \<open>(t = ''number'' \<or> t = ''integer'' \<longrightarrow>
      coerceValue rt (JStr s) t =
        (if isNaN (js_Number rt s) then (JStr s, False) else (JNum (js_Number rt s), True)))
   \<and> ((t = ''number'' \<or> t = ''integer'') \<and> trim s = [] \<longrightarrow>
        coerceValue (rt\<lparr>js_Number := number_of_string\<rparr>) (JStr s) t = (JNum (Finite 0), True))
   \<and> ((t = ''number'' \<or> t = ''integer'') \<and> s \<noteq> [] \<and> (\<forall>d\<in>set s. is_digit d) \<and> length s \<le> 15 \<longrightarrow>
        coerceValue (rt\<lparr>js_Number := number_of_string\<rparr>) (JStr s) t
          = (JNum (Finite (of_nat (digits_value s))), True))
   \<and> ((t = ''number'' \<or> t = ''integer'') \<and> trim s = c # r \<and> c \<notin> set ''0123456789+-.I'' \<longrightarrow>
        coerceValue (rt\<lparr>js_Number := number_of_string\<rparr>) (JStr s) t = (JStr s, False))
   \<and> (toLowerCase s \<in> {''true'', ''1'', ''yes''} \<longrightarrow>
        coerceValue rt (JStr s) ''boolean'' = (JBool True, True))
   \<and> (toLowerCase s \<in> {''false'', ''0'', ''no''} \<longrightarrow>
        coerceValue rt (JStr s) ''boolean'' = (JBool False, True))
   \<and> (toLowerCase s \<notin> {''true'', ''1'', ''yes'', ''false'', ''0'', ''no''} \<longrightarrow>
        coerceValue rt (JStr s) ''boolean'' = (JStr s, False))
   \<and> coerceValue rt (JNum n) ''boolean'' = (JBool (n \<noteq> Finite 0), True)
   \<and> coerceValue rt (JStr s) ''array'' =
        (case JSON_parse rt s of
           Some parsed \<Rightarrow>
             if is_array parsed then (parsed, True)
             else if CHR '','' \<in> set s
             then (JArr (map (\<lambda>piece. JStr (trim piece)) (split CHR '','' s)), True)
             else (JArr [JStr s], True)
         | None \<Rightarrow>
             (case JSON_parse rt (fix_trailing (fix_quotes (fix_keys s))) of
                Some parsed \<Rightarrow>
                  if is_array parsed then (parsed, True)
                  else if CHR '','' \<in> set s
                  then (JArr (map (\<lambda>piece. JStr (trim piece)) (split CHR '','' s)), True)
                  else (JArr [JStr s], True)
              | None \<Rightarrow>
                  if CHR '','' \<in> set s
                  then (JArr (map (\<lambda>piece. JStr (trim piece)) (split CHR '','' s)), True)
                  else (JArr [JStr s], True)))
   \<and> coerceValue (rt\<lparr>JSON_parse := json_parse\<rparr>) (JStr ''[1, 2]'') ''array''
       = (JArr [JNum (Finite 1), JNum (Finite 2)], True)
   \<and> coerceValue (rt\<lparr>JSON_parse := json_parse\<rparr>) (JStr ''[1, 'x',]'') ''array''
       = (JArr [JNum (Finite 1), JStr ''x''], True)
   \<and> coerceValue (rt\<lparr>JSON_parse := json_parse\<rparr>) (JStr ''5'') ''array''
       = (JArr [JStr ''5''], True)
   \<and> coerceValue (rt\<lparr>JSON_parse := json_parse\<rparr>) (JStr ''a, b ,c'') ''array''
       = (JArr [JStr ''a'', JStr ''b'', JStr ''c''], True)\<close>
proof -
  let ?rn = "rt\<lparr>js_Number := number_of_string\<rparr>"
  let ?rj = "rt\<lparr>JSON_parse := json_parse\<rparr>"
  have n: "t = ''number'' \<or> t = ''integer'' \<longrightarrow>
      coerceValue rt (JStr s) t =
        (if isNaN (js_Number rt s) then (JStr s, False) else (JNum (js_Number rt s), True))"
    by (simp add: coerceValue_number)
  have n0: "(t = ''number'' \<or> t = ''integer'') \<and> trim s = [] \<longrightarrow>
        coerceValue ?rn (JStr s) t = (JNum (Finite 0), True)"
    by (auto simp: coerceValue_number number_of_blank isNaN_def)
  have nd: "(t = ''number'' \<or> t = ''integer'') \<and> s \<noteq> [] \<and> (\<forall>d\<in>set s. is_digit d) \<and> length s \<le> 15 \<longrightarrow>
        coerceValue ?rn (JStr s) t = (JNum (Finite (of_nat (digits_value s))), True)"
    by (auto simp: coerceValue_number number_of_digits isNaN_def)
  have nn: "(t = ''number'' \<or> t = ''integer'') \<and> trim s = c # r \<and> c \<notin> set ''0123456789+-.I'' \<longrightarrow>
        coerceValue ?rn (JStr s) t = (JStr s, False)"
    using number_of_other[of s c r] by (auto simp: coerceValue_number isNaN_def)
  have b1: "toLowerCase s \<in> {''true'', ''1'', ''yes''} \<longrightarrow>
        coerceValue rt (JStr s) ''boolean'' = (JBool True, True)"
    by (auto simp: coerceValue_def Let_def)
  have b2: "toLowerCase s \<in> {''false'', ''0'', ''no''} \<longrightarrow>
        coerceValue rt (JStr s) ''boolean'' = (JBool False, True)"
    by (auto simp: coerceValue_def Let_def)
  have b3: "toLowerCase s \<notin> {''true'', ''1'', ''yes'', ''false'', ''0'', ''no''} \<longrightarrow>
        coerceValue rt (JStr s) ''boolean'' = (JStr s, False)"
    by (auto simp: coerceValue_def Let_def)
  have b4: "coerceValue rt (JNum n) ''boolean'' = (JBool (n \<noteq> Finite 0), True)"
    by (simp add: coerceValue_def)
  have p1: "json_parse ''[1, 2]'' = Some (JArr [JNum (Finite 1), JNum (Finite 2)])"
    by code_simp
  have e1: "coerceValue ?rj (JStr ''[1, 2]'') ''array''
       = (JArr [JNum (Finite 1), JNum (Finite 2)], True)"
    unfolding coerceValue_array by (simp add: p1 is_array_def)
  have p2: \<open>json_parse ''[1, 'x',]'' = None\<close> by code_simp
  have f2: \<open>fix_trailing (fix_quotes (fix_keys ''[1, 'x',]'')) = ''[1, "x"]''\<close> by code_simp
  have q2: \<open>json_parse ''[1, "x"]'' = Some (JArr [JNum (Finite 1), JStr ''x''])\<close> by code_simp
  have e2: \<open>coerceValue ?rj (JStr ''[1, 'x',]'') ''array''
       = (JArr [JNum (Finite 1), JStr ''x''], True)\<close>
    unfolding coerceValue_array f2 by (simp add: p2 q2 is_array_def)
  have p3: "json_parse ''5'' = Some (JNum (Finite 5))" by code_simp
  have e3: "coerceValue ?rj (JStr ''5'') ''array'' = (JArr [JStr ''5''], True)"
    unfolding coerceValue_array by (simp add: p3 is_array_def)
  have p4: "json_parse ''a, b ,c'' = None" by code_simp
  have f4: "json_parse (fix_trailing (fix_quotes (fix_keys ''a, b ,c''))) = None" by code_simp
  have s4: "map (\<lambda>piece. JStr (trim piece)) (split CHR '','' ''a, b ,c'')
              = [JStr ''a'', JStr ''b'', JStr ''c'']"
    by code_simp
  have e4: "coerceValue ?rj (JStr ''a, b ,c'') ''array''
       = (JArr [JStr ''a'', JStr ''b'', JStr ''c''], True)"
    unfolding coerceValue_array using s4 by (simp add: p4 f4 del: fix_keys.simps fix_trailing.simps split.simps)
  from n n0 nd nn b1 b2 b3 b4 coerceValue_array[of rt s] e1 e2 e3 e4
  show ?thesis by (intro conjI)
qed


theorem coerceValue_table_witness:
  \<open>coerceValue reference_runtime (JStr ''5'') ''number'' = (JNum (Finite 5), True)
   \<and> coerceValue reference_runtime (JStr '' '') ''integer'' = (JNum (Finite 0), True)
   \<and> coerceValue reference_runtime (JStr ''abc'') ''integer'' = (JStr ''abc'', False)
   \<and> coerceValue reference_runtime (JStr ''YES'') ''boolean'' = (JBool True, True)
   \<and> coerceValue reference_runtime (JStr ''No'') ''boolean'' = (JBool False, True)
   \<and> coerceValue reference_runtime (JStr ''maybe'') ''boolean'' = (JStr ''maybe'', False)
   \<and> coerceValue reference_runtime (JNum (Finite 0)) ''boolean'' = (JBool False, True)
   \<and> coerceValue reference_runtime (JStr ''[1, 2]'') ''array''
       = (JArr [JNum (Finite 1), JNum (Finite 2)], True)
   \<and> coerceValue reference_runtime (JStr ''[1, 'x',]'') ''array''
       = (JArr [JNum (Finite 1), JStr ''x''], True)
   \<and> coerceValue reference_runtime (JStr ''a, b ,c'') ''array''
       = (JArr [JStr ''a'', JStr ''b'', JStr ''c''], True)
   \<and> coerceValue reference_runtime (JStr ''abc'') ''array'' = (JArr [JStr ''abc''], True)\<close>
proof -
  have rn: "reference_runtime\<lparr>js_Number := number_of_string\<rparr> = reference_runtime"
    by (simp add: reference_runtime_def)
  have rj: "reference_runtime\<lparr>JSON_parse := json_parse\<rparr> = reference_runtime"
    by (simp add: reference_runtime_def)
  have d5: "''5'' \<noteq> [] \<and> (\<forall>d\<in>set ''5''. is_digit d) \<and> length ''5'' \<le> 15"
    by (simp add: is_digit_def)
  have v5: "digits_value ''5'' = 5" by code_simp
  have 1: "coerceValue reference_runtime (JStr ''5'') ''number'' = (JNum (Finite 5), True)"
    using coerceValue_table[where t="''number''" and rt=reference_runtime and s="''5''", THEN conjunct2, THEN conjunct2, THEN conjunct1] d5 v5
    unfolding rn by simp
  have tb: "trim '' '' = []" by code_simp
  have 2: "coerceValue reference_runtime (JStr '' '') ''integer'' = (JNum (Finite 0), True)"
    using coerceValue_table[where t="''integer''" and rt=reference_runtime and s="'' ''", THEN conjunct2, THEN conjunct1] tb
    unfolding rn by simp
  have ta: "trim ''abc'' = CHR ''a'' # ''bc''" by code_simp
  have 3: "coerceValue reference_runtime (JStr ''abc'') ''integer'' = (JStr ''abc'', False)"
    using coerceValue_table[where t="''integer''" and rt=reference_runtime and s="''abc''"
        and c="CHR ''a''" and r="''bc''", THEN conjunct2, THEN conjunct2, THEN conjunct2, THEN conjunct1] ta
    unfolding rn by simp
  have l1: "toLowerCase ''YES'' = ''yes''" by code_simp
  have l2: "toLowerCase ''No'' = ''no''" by code_simp
  have l3: "toLowerCase ''maybe'' = ''maybe''" by code_simp
  have 4: "coerceValue reference_runtime (JStr ''YES'') ''boolean'' = (JBool True, True)"
    using coerceValue_table[where rt=reference_runtime and s="''YES''", THEN conjunct2, THEN conjunct2, THEN conjunct2, THEN conjunct2, THEN conjunct1] l1 by simp
  have 5: "coerceValue reference_runtime (JStr ''No'') ''boolean'' = (JBool False, True)"
    using coerceValue_table[where rt=reference_runtime and s="''No''", THEN conjunct2, THEN conjunct2, THEN conjunct2, THEN conjunct2, THEN conjunct2, THEN conjunct1] l2 by simp
  have 6: "coerceValue reference_runtime (JStr ''maybe'') ''boolean'' = (JStr ''maybe'', False)"
    using coerceValue_table[where rt=reference_runtime and s="''maybe''", THEN conjunct2, THEN conjunct2, THEN conjunct2, THEN conjunct2, THEN conjunct2, THEN conjunct2, THEN conjunct1] l3 by simp
  have 7: "coerceValue reference_runtime (JNum (Finite 0)) ''boolean'' = (JBool False, True)"
    using coerceValue_table[where rt=reference_runtime and n="Finite 0", THEN conjunct2, THEN conjunct2, THEN conjunct2, THEN conjunct2, THEN conjunct2, THEN conjunct2, THEN conjunct2, THEN conjunct1] by simp
  have 8: "coerceValue reference_runtime (JStr ''[1, 2]'') ''array''
       = (JArr [JNum (Finite 1), JNum (Finite 2)], True)"
    and 9: \<open>coerceValue reference_runtime (JStr ''[1, 'x',]'') ''array''
       = (JArr [JNum (Finite 1), JStr ''x''], True)\<close>
    and 10: "coerceValue reference_runtime (JStr ''a, b ,c'') ''array''
       = (JArr [JStr ''a'', JStr ''b'', JStr ''c''], True)"
    using coerceValue_table[where rt=reference_runtime, THEN conjunct2, THEN conjunct2, THEN conjunct2, THEN conjunct2, THEN conjunct2, THEN conjunct2, THEN conjunct2, THEN conjunct2, THEN conjunct2, THEN conjunct1]
      coerceValue_table[where rt=reference_runtime, THEN conjunct2, THEN conjunct2, THEN conjunct2, THEN conjunct2, THEN conjunct2, THEN conjunct2, THEN conjunct2, THEN conjunct2, THEN conjunct2, THEN conjunct2, THEN conjunct1]
      coerceValue_table[where rt=reference_runtime, THEN conjunct2, THEN conjunct2, THEN conjunct2, THEN conjunct2, THEN conjunct2, THEN conjunct2, THEN conjunct2, THEN conjunct2, THEN conjunct2, THEN conjunct2, THEN conjunct2, THEN conjunct2]
    unfolding rj by simp_all
  have pa: "JSON_parse reference_runtime ''abc'' = None" by code_simp
  have fa: "JSON_parse reference_runtime (fix_trailing (fix_quotes (fix_keys ''abc''))) = None"
    by code_simp
  have ca: "CHR '','' \<notin> set ''abc''" by simp
  have "coerceValue reference_runtime (JStr ''abc'') ''array'' =
        (case JSON_parse reference_runtime ''abc'' of
           Some parsed \<Rightarrow>
             if is_array parsed then (parsed, True)
             else if CHR '','' \<in> set ''abc''
             then (JArr (map (\<lambda>piece. JStr (trim piece)) (split CHR '','' ''abc'')), True)
             else (JArr [JStr ''abc''], True)
         | None \<Rightarrow>
             (case JSON_parse reference_runtime (fix_trailing (fix_quotes (fix_keys ''abc''))) of
                Some parsed \<Rightarrow>
                  if is_array parsed then (parsed, True)
                  else if CHR '','' \<in> set ''abc''
                  then (JArr (map (\<lambda>piece. JStr (trim piece)) (split CHR '','' ''abc'')), True)
                  else (JArr [JStr ''abc''], True)
              | None \<Rightarrow>
                  if CHR '','' \<in> set ''abc''
                  then (JArr (map (\<lambda>piece. JStr (trim piece)) (split CHR '','' ''abc'')), True)
                  else (JArr [JStr ''abc''], True)))"
    by (rule coerceValue_table[where rt=reference_runtime and s="''abc''", THEN conjunct2, THEN conjunct2, THEN conjunct2, THEN conjunct2, THEN conjunct2, THEN conjunct2, THEN conjunct2, THEN conjunct2, THEN conjunct1])
  then have 11: "coerceValue reference_runtime (JStr ''abc'') ''array'' = (JArr [JStr ''abc''], True)"
    unfolding pa fa using ca by simp
  from 1 2 3 4 5 6 7 8 9 10 11 show ?thesis by (intro conjI)
qed

text \<open>
  Claim C5 as stated fails: the empty string and a string of white space are no
  numerals, and for \<^verbatim>\<open>number\<close> and \<^verbatim>\<open>integer\<close> they are coerced to 0.
\<close>

theorem coerceValue_blank_counterexample:
  "coerceValue reference_runtime (JStr []) ''number'' = (JNum (Finite 0), True)
   \<and> coerceValue reference_runtime (JStr ''   '') ''integer'' = (JNum (Finite 0), True)"
  by code_simp

section \<open>Proofs: the counters and strict mode\<close>







end
